theory Spec2Isabelle
  imports Complex_Main "HOL-Library.AList"
begin

section \<open>Data model\<close>

text \<open>
  A float64 cell of a pandas column is a number, one of the two infinities, or NaN, which
  is also pandas' missing value. Rounding and overflow are not modelled: arithmetic on
  numbers is exact. A column is the list of its cells in date order; a frame is a date
  index and its named columns, in column order.
\<close>

datatype cell = Num real | PInf | NInf | NaN

type_synonym column = "cell list"

definition is_num :: "cell \<Rightarrow> bool" where
  "is_num c = (case c of Num v \<Rightarrow> True | _ \<Rightarrow> False)"

datatype py_error = KeyError | IndexError

record frame =
  index :: "nat list"
  cols :: "(string \<times> column) list"

text \<open>
  The table returned by \<open>yf.download(..., group_by='ticker')\<close>: one date index, and
  under each ticker the columns of that ticker (Open, High, Low, Close, Volume).
\<close>

record price_table =
  dates :: "nat list"
  groups :: "(string \<times> (string \<times> column) list) list"

text \<open>The matrix returned by \<open>DataFrame.corr\<close>: the same labels on both axes.\<close>

record corr_matrix =
  labels :: "string list"
  entries :: "cell list list"

section \<open>Cell arithmetic\<close>

text \<open>
  IEEE arithmetic on cells. NaN propagates through every operation. A number over zero
  is an infinity of the sign of the number, and NaN when the number is zero too; the
  zero of the model is the positive zero. An infinity less an equal infinity, an infinity
  over an infinity and zero times an infinity are NaN.
\<close>

fun fdiv :: "cell \<Rightarrow> cell \<Rightarrow> cell" where
  "fdiv NaN b = NaN"
| "fdiv a NaN = NaN"
| "fdiv (Num x) (Num y) =
     (if y \<noteq> 0 then Num (x / y) else if 0 < x then PInf else if x < 0 then NInf else NaN)"
| "fdiv (Num x) b = Num 0"
| "fdiv PInf (Num y) = (if 0 \<le> y then PInf else NInf)"
| "fdiv NInf (Num y) = (if 0 \<le> y then NInf else PInf)"
| "fdiv a b = NaN"

fun fsub :: "cell \<Rightarrow> cell \<Rightarrow> cell" where
  "fsub NaN b = NaN"
| "fsub a NaN = NaN"
| "fsub (Num x) (Num y) = Num (x - y)"
| "fsub (Num x) PInf = NInf"
| "fsub (Num x) NInf = PInf"
| "fsub PInf PInf = NaN"
| "fsub PInf b = PInf"
| "fsub NInf NInf = NaN"
| "fsub NInf b = NInf"

fun fmul :: "cell \<Rightarrow> cell \<Rightarrow> cell" where
  "fmul NaN b = NaN"
| "fmul a NaN = NaN"
| "fmul (Num x) (Num y) = Num (x * y)"
| "fmul (Num x) PInf = (if 0 < x then PInf else if x < 0 then NInf else NaN)"
| "fmul (Num x) NInf = (if 0 < x then NInf else if x < 0 then PInf else NaN)"
| "fmul PInf (Num y) = (if 0 < y then PInf else if y < 0 then NInf else NaN)"
| "fmul NInf (Num y) = (if 0 < y then NInf else if y < 0 then PInf else NaN)"
| "fmul PInf PInf = PInf"
| "fmul NInf NInf = PInf"
| "fmul a b = NInf"

section \<open>The pandas operations the program calls\<close>

text \<open>\<open>frame[name]\<close>: the column, or KeyError.\<close>

definition getitem :: "frame \<Rightarrow> string \<Rightarrow> py_error + column" where
  "getitem f name = (case map_of (cols f) name of None \<Rightarrow> Inl KeyError | Some c \<Rightarrow> Inr c)"

text \<open>
  \<open>frame[name] = column\<close>: an existing column is replaced where it stands, a new one is
  appended after the others.
\<close>

definition setitem :: "frame \<Rightarrow> string \<Rightarrow> column \<Rightarrow> frame" where
  "setitem f name c = f\<lparr>cols := AList.update name c (cols f)\<rparr>"

text \<open>\<open>ticker in df.columns\<close> on the two-level columns of the price table.\<close>

definition contains :: "price_table \<Rightarrow> string \<Rightarrow> bool" where
  "contains df ticker = (map_of (groups df) ticker \<noteq> None)"

text \<open>
  \<open>df[ticker]\<close> gives the ticker's sub-table. What the program holds is a handle: a view
  into the table, through which a write reaches the table itself, or a frame of its own,
  which \<open>.copy()\<close> makes.
\<close>

datatype handle = View string | Owned frame

definition table_getitem :: "price_table \<Rightarrow> string \<Rightarrow> py_error + handle" where
  "table_getitem df ticker =
     (case map_of (groups df) ticker of None \<Rightarrow> Inl KeyError | Some fs \<Rightarrow> Inr (View ticker))"

fun read :: "price_table \<Rightarrow> handle \<Rightarrow> frame" where
  "read df (View t) =
     \<lparr>index = dates df, cols = (case map_of (groups df) t of None \<Rightarrow> [] | Some fs \<Rightarrow> fs)\<rparr>"
| "read df (Owned f) = f"

definition copy :: "price_table \<Rightarrow> handle \<Rightarrow> handle" where
  "copy df h = Owned (read df h)"

fun write_col :: "price_table \<Rightarrow> handle \<Rightarrow> string \<Rightarrow> column \<Rightarrow> price_table \<times> handle" where
  "write_col df (View t) name c =
     (df\<lparr>groups := AList.map_entry t (AList.update name c) (groups df)\<rparr>, View t)"
| "write_col df (Owned f) name c = (df, Owned (setitem f name c))"

definition get_col :: "price_table \<Rightarrow> handle \<Rightarrow> string \<Rightarrow> py_error + column" where
  "get_col df h name = getitem (read df h) name"

text \<open>
  \<open>Series.pct_change()\<close> is \<open>data / data.shift(1) - 1\<close>. Which \<open>data\<close> depends on the
  pandas release: it is the series forward-filled (\<open>fill_method='pad'\<close>, the default up
  to pandas 2) or the series as it is (the only behaviour from pandas 3 on). The fill
  method is a parameter of the model.
\<close>

datatype fill_method = Pad | NoFill

fun ffill_from :: "cell \<Rightarrow> column \<Rightarrow> column" where
  "ffill_from prev [] = []"
| "ffill_from prev (x # xs) =
     (if x = NaN then prev # ffill_from prev xs else x # ffill_from x xs)"

definition ffill :: "column \<Rightarrow> column" where
  "ffill xs = ffill_from NaN xs"

definition shift :: "column \<Rightarrow> column" where
  "shift xs = (case xs of [] \<Rightarrow> [] | _ # _ \<Rightarrow> NaN # butlast xs)"

definition filled :: "fill_method \<Rightarrow> column \<Rightarrow> column" where
  "filled fm xs = (case fm of Pad \<Rightarrow> ffill xs | NoFill \<Rightarrow> xs)"

definition pct_change :: "fill_method \<Rightarrow> column \<Rightarrow> column" where
  "pct_change fm xs =
     (let data = filled fm xs
      in map2 (\<lambda>a b. fsub (fdiv a b) (Num 1)) data (shift data))"

text \<open>
  \<open>Series.rolling(window=w)\<close>: at row \<open>i\<close> the window is the rows \<open>i + 1 - w .. i\<close>
  (cut at the start of the series), and \<open>min_periods\<close> defaults to \<open>w\<close>: the aggregate
  is NaN unless the window holds \<open>w\<close> observations. The rolling aggregations turn an
  infinity into NaN before they count, so the observations are the numbers.
\<close>

definition window :: "nat \<Rightarrow> column \<Rightarrow> nat \<Rightarrow> column" where
  "window w xs i = (let lo = i + 1 - w in take (i + 1 - lo) (drop lo xs))"

fun observations :: "column \<Rightarrow> real list" where
  "observations [] = []"
| "observations (Num v # xs) = v # observations xs"
| "observations (c # xs) = observations xs"

definition rolling :: "nat \<Rightarrow> (real list \<Rightarrow> cell) \<Rightarrow> column \<Rightarrow> column" where
  "rolling w agg xs =
     map (\<lambda>i. let obs = observations (window w xs i)
               in if length obs < w then NaN else agg obs) [0..<length xs]"

definition mean :: "real list \<Rightarrow> real" where
  "mean xs = sum_list xs / real (length xs)"

text \<open>The sum of squared deviations from the mean, and of products of deviations.\<close>

definition ssd :: "real list \<Rightarrow> real" where
  "ssd xs = (\<Sum>x\<leftarrow>xs. (x - mean xs)\<^sup>2)"

definition spd :: "real list \<Rightarrow> real list \<Rightarrow> real" where
  "spd xs ys = (\<Sum>(x, y)\<leftarrow>zip xs ys. (x - mean xs) * (y - mean ys))"

definition agg_mean :: "real list \<Rightarrow> cell" where
  "agg_mean obs = (if obs = [] then NaN else Num (mean obs))"

text \<open>\<open>.std()\<close> has \<open>ddof=1\<close>: the divisor is the number of observations less one.\<close>

definition agg_std :: "real list \<Rightarrow> cell" where
  "agg_std obs =
     (if length obs \<le> 1 then NaN else Num (sqrt (ssd obs / real (length obs - 1))))"

text \<open>
  \<open>close_prices[ticker] = series\<close> on the frame being built. Every series assigned is a
  column of the one price table and carries its date index, so the alignment on the
  index is the identity; a frame that has no rows yet takes the index of the series.
\<close>

definition assign_series :: "frame \<Rightarrow> nat list \<Rightarrow> string \<Rightarrow> column \<Rightarrow> frame" where
  "assign_series f idx name c =
     \<lparr>index = (if index f = [] then idx else index f), cols = AList.update name c (cols f)\<rparr>"

text \<open>
  \<open>DataFrame.dropna()\<close>: keeps the rows in which no column is NaN. An infinity is not
  a missing value, so a row that holds one stays.
\<close>

definition cell_at :: "column \<Rightarrow> nat \<Rightarrow> cell" where
  "cell_at c i = (if i < length c then c ! i else NaN)"

definition row_complete :: "frame \<Rightarrow> nat \<Rightarrow> bool" where
  "row_complete f i = list_all (\<lambda>(name, c). cell_at c i \<noteq> NaN) (cols f)"

definition kept_rows :: "frame \<Rightarrow> nat list" where
  "kept_rows f = filter (row_complete f) [0..<length (index f)]"

definition dropna :: "frame \<Rightarrow> frame" where
  "dropna f =
     \<lparr>index = map (\<lambda>i. index f ! i) (kept_rows f),
      cols = map (\<lambda>(name, c). (name, map (cell_at c) (kept_rows f))) (cols f)\<rparr>"

text \<open>
  \<open>DataFrame.corr()\<close> (Pearson, \<open>min_periods=1\<close>): for each pair of columns, over the
  rows where both are finite (neither NaN nor an infinity), the sum of products of
  deviations divided by the square root of the product of the two sums of squared
  deviations; NaN when there is no such row or the divisor is zero.
\<close>

fun complete_pairs :: "column \<Rightarrow> column \<Rightarrow> (real \<times> real) list" where
  "complete_pairs (Num x # xs) (Num y # ys) = (x, y) # complete_pairs xs ys"
| "complete_pairs (_ # xs) (_ # ys) = complete_pairs xs ys"
| "complete_pairs _ _ = []"

definition nancorr :: "column \<Rightarrow> column \<Rightarrow> cell" where
  "nancorr cx cy =
     (let ps = complete_pairs cx cy; xs = map fst ps; ys = map snd ps;
          divisor = sqrt (ssd xs * ssd ys)
      in if length ps < 1 then NaN
         else if divisor \<noteq> 0 then Num (spd xs ys / divisor) else NaN)"

definition corr :: "frame \<Rightarrow> corr_matrix" where
  "corr f =
     \<lparr>labels = map fst (cols f),
      entries = map (\<lambda>(a, cx). map (\<lambda>(b, cy). nancorr cx cy) (cols f)) (cols f)\<rparr>"

text \<open>\<open>series.iloc[k]\<close>: a negative position counts from the end; out of range raises.\<close>

definition iloc :: "'a list \<Rightarrow> int \<Rightarrow> py_error + 'a" where
  "iloc xs k =
     (if 0 \<le> k then
        (if nat k < length xs then Inr (xs ! nat k) else Inl IndexError)
      else
        (if nat (- k) \<le> length xs then Inr (xs ! (length xs - nat (- k)))
         else Inl IndexError))"

section \<open>The program\<close>

text \<open>
  \<open>calculate_metrics(df, ticker)\<close>. The result is the price table after the call and
  what the call returns: \<open>Inr None\<close> for Python's \<open>None\<close>, \<open>Inl e\<close> for an exception that
  leaves the function. The \<open>try\<close> catches KeyError only, and only around the first
  statement.
\<close>

definition calculate_metrics ::
  "fill_method \<Rightarrow> price_table \<Rightarrow> string \<Rightarrow> price_table \<times> (py_error + frame option)" where
  "calculate_metrics fm df ticker =
     (case table_getitem df ticker of
        Inl KeyError \<Rightarrow> (df, Inr None)
      | Inl IndexError \<Rightarrow> (df, Inl IndexError)
      | Inr v \<Rightarrow>
         let stock_df = copy df v in
         (case get_col df stock_df ''Close'' of Inl e \<Rightarrow> (df, Inl e) | Inr close \<Rightarrow>
          let (df, stock_df) = write_col df stock_df ''Daily Return'' (pct_change fm close) in
          (case get_col df stock_df ''Daily Return'' of Inl e \<Rightarrow> (df, Inl e) | Inr dr \<Rightarrow>
           let (df, stock_df) = write_col df stock_df ''Volatility''
                 (map (\<lambda>s. fmul s (Num (sqrt 252))) (rolling 21 agg_std dr)) in
           (case get_col df stock_df ''Close'' of Inl e \<Rightarrow> (df, Inl e) | Inr close \<Rightarrow>
            let (df, stock_df) = write_col df stock_df ''SMA_50'' (rolling 50 agg_mean close) in
            (case get_col df stock_df ''Close'' of Inl e \<Rightarrow> (df, Inl e) | Inr close \<Rightarrow>
             let (df, stock_df) = write_col df stock_df ''SMA_200'' (rolling 200 agg_mean close)
             in (df, Inr (Some (read df stock_df))))))))"

text \<open>\<open>df[ticker]['Close']\<close>, as \<open>calculate_correlation\<close> reads it.\<close>

definition table_close :: "price_table \<Rightarrow> string \<Rightarrow> py_error + column" where
  "table_close df ticker =
     (case table_getitem df ticker of Inl e \<Rightarrow> Inl e | Inr v \<Rightarrow> get_col df v ''Close'')"

text \<open>
  The loop of \<open>calculate_correlation\<close> over the tickers, building \<open>close_prices\<close>. The
  reads in its body raise nothing but KeyError, which the \<open>except\<close> turns into \<open>continue\<close>.
\<close>

fun close_prices_loop :: "fill_method \<Rightarrow> price_table \<Rightarrow> string list \<Rightarrow> frame \<Rightarrow> frame" where
  "close_prices_loop fm df [] close_prices = close_prices"
| "close_prices_loop fm df (ticker # rest) close_prices =
     (if contains df ticker then
        (case table_close df ticker of
           Inl e \<Rightarrow> close_prices_loop fm df rest close_prices
         | Inr close \<Rightarrow>
             close_prices_loop fm df rest
               (assign_series close_prices (dates df) ticker (pct_change fm close)))
      else close_prices_loop fm df rest close_prices)"

text \<open>The frame \<open>close_prices\<close> as the loop leaves it, started from \<open>pd.DataFrame()\<close>.\<close>

definition close_prices :: "fill_method \<Rightarrow> price_table \<Rightarrow> string list \<Rightarrow> frame" where
  "close_prices fm df tickers = close_prices_loop fm df tickers \<lparr>index = [], cols = []\<rparr>"

definition calculate_correlation :: "fill_method \<Rightarrow> price_table \<Rightarrow> string list \<Rightarrow> corr_matrix" where
  "calculate_correlation fm df tickers = corr (dropna (close_prices fm df tickers))"

text \<open>
  \<open>main\<close> up to the KPI row (lines 84 to 93): the three figures shown, the error message
  for a ticker that is not in the table, or the exception that ends the run.
\<close>

datatype outcome = ErrorShown | Raised py_error | Kpi cell cell cell

definition main_kpi :: "fill_method \<Rightarrow> price_table \<Rightarrow> string \<Rightarrow> outcome" where
  "main_kpi fm raw_data selected_ticker =
     (case snd (calculate_metrics fm raw_data selected_ticker) of
        Inl e \<Rightarrow> Raised e
      | Inr None \<Rightarrow> ErrorShown
      | Inr (Some processed_data) \<Rightarrow>
         (case getitem processed_data ''Close'' of Inl e \<Rightarrow> Raised e | Inr c1 \<Rightarrow>
          (case iloc c1 (- 1) of Inl e \<Rightarrow> Raised e | Inr latest_close \<Rightarrow>
           (case getitem processed_data ''Volatility'' of Inl e \<Rightarrow> Raised e | Inr v \<Rightarrow>
            (case iloc v (- 1) of Inl e \<Rightarrow> Raised e | Inr latest_volatility \<Rightarrow>
             (case getitem processed_data ''Close'' of Inl e \<Rightarrow> Raised e | Inr c2 \<Rightarrow>
              (case iloc c2 (- 1) of Inl e \<Rightarrow> Raised e | Inr a \<Rightarrow>
               (case getitem processed_data ''Close'' of Inl e \<Rightarrow> Raised e | Inr c3 \<Rightarrow>
                (case iloc c3 (- 252) of Inl e \<Rightarrow> Raised e | Inr b \<Rightarrow>
                 Kpi latest_close latest_volatility
                   (fmul (fsub (fdiv a b) (Num 1)) (Num 100)))))))))))"

text \<open>The Volatility column, as line 44 of the source computes it from the closes.\<close>

definition volatility_col :: "fill_method \<Rightarrow> column \<Rightarrow> column" where
  "volatility_col fm close =
     map (\<lambda>s. fmul s (Num (sqrt 252))) (rolling 21 agg_std (pct_change fm close))"

text \<open>
  The columns of the table \<open>calculate_metrics\<close> returns for a ticker whose columns are
  \<open>fs\<close> and whose closes are \<open>close\<close>: the four assignments, in the order of the source.
\<close>

definition metrics_cols ::
  "fill_method \<Rightarrow> (string \<times> column) list \<Rightarrow> column \<Rightarrow> (string \<times> column) list" where
  "metrics_cols fm fs close =
     AList.update ''SMA_200'' (rolling 200 agg_mean close)
       (AList.update ''SMA_50'' (rolling 50 agg_mean close)
         (AList.update ''Volatility'' (volatility_col fm close)
            (AList.update ''Daily Return'' (pct_change fm close) fs)))"

section \<open>The notions the claims on the correlation matrix are stated with\<close>

text \<open>
  The daily returns of a ticker that the correlation loop includes: one that is in the
  table and has a Close column.
\<close>

definition returns :: "fill_method \<Rightarrow> price_table \<Rightarrow> string \<Rightarrow> column option" where
  "returns fm df t =
     (case map_of (groups df) t of None \<Rightarrow> None
      | Some fs \<Rightarrow> (case map_of fs ''Close'' of None \<Rightarrow> None
                     | Some close \<Rightarrow> Some (pct_change fm close)))"

text \<open>
  The retained rows (dates, by position): those on which no included ticker's return is
  the missing value NaN.
\<close>

definition common_rows :: "fill_method \<Rightarrow> price_table \<Rightarrow> string list \<Rightarrow> nat list" where
  "common_rows fm df tickers =
     filter (\<lambda>i. list_all (\<lambda>t. case returns fm df t of None \<Rightarrow> True
                                  | Some r \<Rightarrow> cell_at r i \<noteq> NaN) tickers)
       [0..<length (dates df)]"

text \<open>The return series of a ticker restricted to the retained rows.\<close>

definition retained_returns ::
  "fill_method \<Rightarrow> price_table \<Rightarrow> string list \<Rightarrow> string \<Rightarrow> column" where
  "retained_returns fm df tickers t =
     (case returns fm df t of None \<Rightarrow> []
      | Some r \<Rightarrow> map (cell_at r) (common_rows fm df tickers))"

text \<open>
  The returns of a ticker on the retained rows that are numbers. They are all of the
  ticker's returns on these rows unless one of them is infinite.
\<close>

definition common_returns ::
  "fill_method \<Rightarrow> price_table \<Rightarrow> string list \<Rightarrow> string \<Rightarrow> real list" where
  "common_returns fm df tickers t = observations (retained_returns fm df tickers t)"



section \<open>Example tables\<close>

text \<open>Small price tables on which the theorems below are instantiated.\<close>

definition df_w3 :: price_table where
  "df_w3 = \<lparr>dates = [0, 1], groups = [(''AAPL'', [(''Close'', [Num 1, Num 2])])]\<rparr>"

definition df_w8 :: price_table where
  "df_w8 = \<lparr>dates = [0, 1, 2],
            groups = [(''MSFT'', [(''Open'', [Num 9, Num 10, Num 12]),
                                  (''Close'', [Num 10, Num 12, Num 9])])]\<rparr>"

definition df_w4 :: price_table where
  "df_w4 = \<lparr>dates = [0..<22],
            groups = [(''IBM'', [(''Close'', Num 1 # replicate 21 (Num 2))])]\<rparr>"

definition df_w9 :: price_table where
  "df_w9 = \<lparr>dates = [0..<50], groups = [(''ORCL'', [(''Close'', replicate 50 (Num 100))])]\<rparr>"

definition df_w10 :: price_table where
  "df_w10 = \<lparr>dates = [0, 1],
             groups = [(''NVDA'', [(''Open'', [Num 3, Num 4]), (''Close'', [Num 4, Num 5])]),
                       (''AMD'', [(''Close'', [Num 7, NaN])])]\<rparr>"

definition df_c1 :: price_table where
  "df_c1 = \<lparr>dates = [0..<252],
            groups = [(''AAPL'', [(''Close'', Num 50 # replicate 251 (Num 100))])]\<rparr>"

definition df_w1 :: price_table where
  "df_w1 = \<lparr>dates = [0..<251],
            groups = [(''AAPL'', [(''Close'', replicate 251 (Num 100))])]\<rparr>"

definition df_c2 :: price_table where
  "df_c2 = \<lparr>dates = [0, 1, 2, 3],
            groups = [(''AAPL'', [(''Close'', [Num 1, Num 2, Num 3, Num 6])]),
                      (''INTC'', [(''Close'', [NaN, NaN, NaN, NaN])])]\<rparr>"

definition df_c6 :: price_table where
  "df_c6 = \<lparr>dates = [0, 1, 2, 3],
            groups = [(''IBM'', [(''Close'', [Num 5, Num 5, Num 5, Num 5])]),
                      (''AAPL'', [(''Close'', [Num 1, Num 2, Num 3, Num 6])])]\<rparr>"

definition df_c7 :: price_table where
  "df_c7 = \<lparr>dates = [0, 1], groups = [(''NVDA'', [(''Close'', [Num 1, Num 2])])]\<rparr>"

definition df_w5 :: price_table where
  "df_w5 = \<lparr>dates = [0, 1, 2, 3],
            groups = [(''AAPL'', [(''Close'', [Num 1, Num 2, Num 3, Num 6])]),
                      (''MSFT'', [(''Close'', [Num 2, Num 3, Num 6, Num 9])])]\<rparr>"

definition df_w2 :: price_table where
  "df_w2 = \<lparr>dates = [0],
            groups = [(''AAPL'', [(''Close'', [Num 10])]), (''MSFT'', [(''Close'', [Num 20])])]\<rparr>"


definition df_v :: price_table where
  "df_v = \<lparr>dates = [0, 1, 2, 3, 4],
           groups = [(''AAPL'', [(''Close'', [Num 0, Num 1, NaN, Num 0, Num 1])]),
                     (''MSFT'', [(''Close'', [Num 1, Num 2, Num 3, Num 4, Num 6])])]\<rparr>"

section \<open>Lemmas on the pandas operations\<close>

lemma is_num_iff: "is_num c \<longleftrightarrow> (\<exists>v. c = Num v)"
  by (cases c) (simp_all add: is_num_def)

lemma fdiv_NaN_right: "fdiv a NaN = NaN"
  by (cases a) simp_all

lemma fsub_NaN_right: "fsub a NaN = NaN"
  by (cases a) simp_all

lemma fmul_NaN_right: "fmul a NaN = NaN"
  by (cases a) simp_all

lemma fmul_Num_eq_NaN_iff: "fmul s (Num (sqrt 252)) \<noteq> NaN \<longleftrightarrow> s \<noteq> NaN"
  by (cases s) simp_all

lemma update_absent_append:
  "k \<notin> fst ` set al \<Longrightarrow> AList.update k v al = al @ [(k, v)]"
  by (induction al) auto

lemma length_ffill_from: "length (ffill_from prev xs) = length xs"
  by (induction xs arbitrary: prev) auto

lemma ffill_from_nth_keep:
  "i < length xs \<Longrightarrow> xs ! i \<noteq> NaN \<Longrightarrow> ffill_from prev xs ! i = xs ! i"
proof (induction xs arbitrary: prev i)
  case Nil
  then show ?case by simp
next
  case (Cons x xs)
  then show ?case by (cases i) auto
qed

lemma length_shift: "length (shift xs) = length xs"
  by (cases xs) (simp_all add: shift_def)

lemma shift_nth:
  "i < length xs \<Longrightarrow> shift xs ! i = (if i = 0 then NaN else xs ! (i - 1))"
proof (cases xs)
  case Nil
  assume "i < length xs"
  with Nil show ?thesis by simp
next
  case (Cons a list)
  assume "i < length xs"
  then have "i \<noteq> 0 \<Longrightarrow> i - 1 < length (butlast xs)" by simp
  then have "i \<noteq> 0 \<Longrightarrow> butlast xs ! (i - 1) = xs ! (i - 1)" by (simp add: nth_butlast)
  moreover have "shift xs = NaN # butlast xs" using Cons by (simp add: shift_def)
  ultimately show ?thesis by (cases i) simp_all
qed

lemma length_filled: "length (filled fm xs) = length xs"
  by (cases fm) (simp_all add: filled_def ffill_def length_ffill_from)

lemma filled_nth_keep:
  "i < length xs \<Longrightarrow> xs ! i \<noteq> NaN \<Longrightarrow> filled fm xs ! i = xs ! i"
  by (cases fm) (simp_all add: filled_def ffill_def ffill_from_nth_keep)

lemma filled_nth_Num:
  "i < length xs \<Longrightarrow> xs ! i = Num v \<Longrightarrow> filled fm xs ! i = Num v"
  using filled_nth_keep [of i xs fm] by simp

lemma length_pct_change: "length (pct_change fm xs) = length xs"
  by (simp add: pct_change_def Let_def length_shift length_filled)

lemma pct_change_nth:
  assumes "i < length xs"
  shows "pct_change fm xs ! i =
           (if i = 0 then NaN
            else fsub (fdiv (filled fm xs ! i) (filled fm xs ! (i - 1))) (Num 1))"
  using assms
  by (simp add: pct_change_def Let_def length_filled length_shift shift_nth fdiv_NaN_right)

lemma pct_change_Num:
  assumes "0 < k" and "k < length close" and "close ! (k - 1) = Num a" and "close ! k = Num b"
    and "a \<noteq> 0"
  shows "pct_change fm close ! k = Num (b / a - 1)"
proof -
  have "filled fm close ! k = Num b" using assms by (simp add: filled_nth_Num)
  moreover have "filled fm close ! (k - 1) = Num a" using assms by (simp add: filled_nth_Num)
  ultimately show ?thesis using assms by (simp add: pct_change_nth)
qed

lemma pct_change_constant_run:
  assumes "0 < k" and "k < length close" and "close ! (k - 1) = Num c" and "close ! k = Num c"
    and "c \<noteq> 0"
  shows "pct_change fm close ! k = Num 0"
  using pct_change_Num [OF assms] assms(5) by simp

lemma pct_change_constant:
  assumes "c \<noteq> 0"
  shows "pct_change fm (replicate (Suc n) (Num c)) = NaN # replicate n (Num 0)"
proof (rule nth_equalityI)
  show "length (pct_change fm (replicate (Suc n) (Num c))) = length (NaN # replicate n (Num 0))"
    by (simp add: length_pct_change)
next
  fix i assume "i < length (pct_change fm (replicate (Suc n) (Num c)))"
  then have i: "i < Suc n" by (simp add: length_pct_change)
  show "pct_change fm (replicate (Suc n) (Num c)) ! i = (NaN # replicate n (Num 0)) ! i"
  proof (cases i)
    case 0
    then show ?thesis by (simp add: pct_change_nth)
  next
    case (Suc j)
    have "pct_change fm (replicate (Suc n) (Num c)) ! i = Num 0"
      using i Suc assms
      by (intro pct_change_constant_run [where c = c]) (simp_all del: replicate_Suc)
    then show ?thesis using i Suc by simp
  qed
qed

lemma length_observations_le: "length (observations win) \<le> length win"
  by (induction win rule: observations.induct) auto

lemma observations_map_Num: "observations (map Num ws) = ws"
  by (induction ws) auto

lemma map_Num_observations:
  "\<forall>c\<in>set cs. is_num c \<Longrightarrow> cs = map Num (observations cs)"
  by (induction cs rule: observations.induct) (auto simp: is_num_def)

lemma observations_full:
  "length (observations win) = length win \<Longrightarrow> \<forall>c\<in>set win. is_num c"
proof (induction win)
  case Nil
  then show ?case by simp
next
  case (Cons c win)
  have le: "length (observations win) \<le> length win" by (rule length_observations_le)
  show ?case
  proof (cases c)
    case (Num v)
    with Cons show ?thesis by (simp add: is_num_def)
  next
    case PInf
    with Cons.prems le show ?thesis by simp
  next
    case NInf
    with Cons.prems le show ?thesis by simp
  next
    case NaN
    with Cons.prems le show ?thesis by simp
  qed
qed

lemma window_full:
  assumes "0 < w" and "w \<le> i + 1"
  shows "window w xs i = take w (drop (i + 1 - w) xs)"
  using assms by (simp add: window_def Let_def)

lemma window_short:
  assumes "i + 1 < w"
  shows "length (window w xs i) < w"
  using assms by (simp add: window_def Let_def)

lemma length_rolling: "length (rolling w agg xs) = length xs"
  by (simp add: rolling_def)

lemma rolling_nth_short:
  assumes "i < length xs" and "i + 1 < w"
  shows "rolling w agg xs ! i = NaN"
proof -
  have "length (observations (window w xs i)) \<le> length (window w xs i)"
    by (rule length_observations_le)
  with window_short [OF assms(2), of xs] have "length (observations (window w xs i)) < w"
    by linarith
  with assms(1) show ?thesis by (simp add: rolling_def Let_def)
qed

lemma rolling_nth_full:
  assumes "i < length xs" and "0 < w" and "w \<le> i + 1"
    and "take w (drop (i + 1 - w) xs) = map Num ws"
  shows "rolling w agg xs ! i = agg ws"
proof -
  have len: "length (take w (drop (i + 1 - w) xs)) = w"
    using assms(1,2,3) by simp
  then have "length ws = w" using assms(4) by (metis length_map)
  then show ?thesis
    using assms by (simp add: rolling_def Let_def window_full observations_map_Num)
qed

lemma rolling_nth_missing:
  assumes "i < length xs" and "0 < w" and "w \<le> i + 1"
    and "i + 1 - w \<le> k" and "k \<le> i" and "\<not> is_num (xs ! k)"
  shows "rolling w agg xs ! i = NaN"
proof -
  let ?win = "take w (drop (i + 1 - w) xs)"
  have len: "length ?win = w" using assms(1,2,3) by simp
  have "length (observations ?win) \<noteq> length ?win"
  proof
    assume "length (observations ?win) = length ?win"
    then have all: "\<forall>c\<in>set ?win. is_num c" by (rule observations_full)
    have kk: "k - (i + 1 - w) < w" using assms by linarith
    have "?win ! (k - (i + 1 - w)) = xs ! k"
      using assms kk by simp
    moreover have "?win ! (k - (i + 1 - w)) \<in> set ?win"
      using kk len by (metis nth_mem)
    ultimately show False using assms(6) all by simp
  qed
  with length_observations_le [of ?win] len have "length (observations ?win) < w"
    by linarith
  with assms(1,2,3) show ?thesis by (simp add: rolling_def Let_def window_full)
qed

lemma all_Num_window:
  assumes "i < length xs" and "0 < w" and "w \<le> i + 1"
    and "\<forall>k. i + 1 - w \<le> k \<and> k \<le> i \<longrightarrow> is_num (xs ! k)"
  shows "\<exists>ws. take w (drop (i + 1 - w) xs) = map Num ws \<and> length ws = w"
proof -
  let ?win = "take w (drop (i + 1 - w) xs)"
  have len: "length ?win = w" using assms(1,2,3) by simp
  have "\<forall>c\<in>set ?win. is_num c"
  proof
    fix c assume "c \<in> set ?win"
    then obtain j where j: "j < w" and c: "c = ?win ! j"
      using len by (metis in_set_conv_nth)
    have "?win ! j = xs ! (i + 1 - w + j)" using j assms(1,2,3) by simp
    moreover have "i + 1 - w \<le> i + 1 - w + j \<and> i + 1 - w + j \<le> i"
      using j assms(3) by linarith
    then have "is_num (xs ! (i + 1 - w + j))"
      using assms(4) by blast
    ultimately show "is_num c" using c by simp
  qed
  then have "?win = map Num (observations ?win)" by (rule map_Num_observations)
  then show ?thesis using len by (metis length_map)
qed

lemma rolling_defined_iff:
  assumes "i < length xs" and "0 < w" and "\<And>ws. length ws = w \<Longrightarrow> agg ws \<noteq> NaN"
  shows "rolling w agg xs ! i \<noteq> NaN \<longleftrightarrow>
           w \<le> i + 1 \<and> (\<forall>k. i + 1 - w \<le> k \<and> k \<le> i \<longrightarrow> is_num (xs ! k))"
proof (cases "w \<le> i + 1")
  case False
  then show ?thesis using assms(1) by (simp add: rolling_nth_short)
next
  case True
  show ?thesis
  proof (cases "\<forall>k. i + 1 - w \<le> k \<and> k \<le> i \<longrightarrow> is_num (xs ! k)")
    case all: True
    from all_Num_window [OF assms(1,2) True all] obtain ws
      where ws: "take w (drop (i + 1 - w) xs) = map Num ws" "length ws = w" by blast
    have "rolling w agg xs ! i = agg ws"
      by (rule rolling_nth_full [OF assms(1,2) True ws(1)])
    with assms(3) [OF ws(2)] all True show ?thesis by simp
  next
    case False
    then obtain k where k: "i + 1 - w \<le> k" "k \<le> i" "\<not> is_num (xs ! k)" by blast
    have "rolling w agg xs ! i = NaN"
      by (rule rolling_nth_missing [OF assms(1,2) True k])
    with False show ?thesis by simp
  qed
qed

lemma agg_std_21:
  assumes "length ws = 21"
  shows "agg_std ws = Num (sqrt ((\<Sum>x\<leftarrow>ws. (x - sum_list ws / 21)\<^sup>2) / 20))"
  using assms by (simp add: agg_std_def ssd_def mean_def)

lemma agg_mean_n:
  assumes "length ws = n" and "0 < n"
  shows "agg_mean ws = Num (sum_list ws / real n)"
  using assms by (auto simp: agg_mean_def mean_def)

lemma rolling_mean_defined_iff:
  assumes "i < length close" and "0 < w"
  shows "rolling w agg_mean close ! i \<noteq> NaN \<longleftrightarrow>
           w - 1 \<le> i \<and> (\<forall>k. i - (w - 1) \<le> k \<and> k \<le> i \<longrightarrow> is_num (close ! k))"
proof -
  have a: "w \<le> i + 1 \<longleftrightarrow> w - 1 \<le> i" using assms(2) by linarith
  have b: "i + 1 - w = i - (w - 1)" using assms(2) by linarith
  have "rolling w agg_mean close ! i \<noteq> NaN \<longleftrightarrow>
          w \<le> i + 1 \<and> (\<forall>k. i + 1 - w \<le> k \<and> k \<le> i \<longrightarrow> is_num (close ! k))"
    using assms by (intro rolling_defined_iff) (auto simp: agg_mean_def)
  then show ?thesis unfolding a b .
qed

lemma rolling_mean_value:
  assumes "i < length close" and "0 < w" and "w - 1 \<le> i"
    and "take w (drop (i - (w - 1)) close) = map Num ws"
  shows "rolling w agg_mean close ! i = Num (sum_list ws / real w)"
proof -
  have e: "Suc i - w = i - (w - Suc 0)" using assms(2) by linarith
  have wi: "w \<le> i + 1" using assms(2,3) by linarith
  have "length (take w (drop (i - (w - 1)) close)) = w" using assms(1,2,3) by simp
  then have len: "length ws = w" using assms(4) by (metis length_map)
  have "rolling w agg_mean close ! i = agg_mean ws"
    using assms(4) by (intro rolling_nth_full [OF assms(1,2) wi]) (simp add: e)
  then show ?thesis by (simp add: agg_mean_n [OF len assms(2)])
qed

lemma length_volatility_col: "length (volatility_col fm close) = length close"
  by (simp add: volatility_col_def length_rolling length_pct_change)

lemma volatility_defined_iff:
  assumes "i < length close"
  shows "volatility_col fm close ! i \<noteq> NaN \<longleftrightarrow>
           20 \<le> i \<and> (\<forall>k. i - 20 \<le> k \<and> k \<le> i \<longrightarrow> is_num (pct_change fm close ! k))"
proof -
  let ?dr = "pct_change fm close"
  have i: "i < length ?dr" using assms by (simp add: length_pct_change)
  have "rolling 21 agg_std ?dr ! i \<noteq> NaN \<longleftrightarrow>
          21 \<le> i + 1 \<and> (\<forall>k. i + 1 - 21 \<le> k \<and> k \<le> i \<longrightarrow> is_num (?dr ! k))"
    by (rule rolling_defined_iff [OF i]) (simp_all add: agg_std_21)
  moreover have "volatility_col fm close ! i \<noteq> NaN \<longleftrightarrow> rolling 21 agg_std ?dr ! i \<noteq> NaN"
    using i by (simp add: volatility_col_def length_rolling fmul_Num_eq_NaN_iff)
  ultimately show ?thesis by simp
qed

lemma volatility_value:
  assumes "i < length close" and "20 \<le> i"
    and "take 21 (drop (i - 20) (pct_change fm close)) = map Num ws"
  shows "volatility_col fm close ! i =
           Num (sqrt ((\<Sum>x\<leftarrow>ws. (x - sum_list ws / 21)\<^sup>2) / (21 - 1)) * sqrt 252)"
proof -
  let ?dr = "pct_change fm close"
  have i: "i < length ?dr" using assms(1) by (simp add: length_pct_change)
  have w: "take 21 (drop (i + 1 - 21) ?dr) = map Num ws" using assms(2,3) by simp
  have "length (take 21 (drop (i - 20) ?dr)) = 21" using i assms(2) by simp
  then have len: "length ws = 21" using assms(3) by (metis length_map)
  have "rolling 21 agg_std ?dr ! i = agg_std ws"
    using assms(2) by (intro rolling_nth_full [OF i _ _ w]) simp_all
  then show ?thesis
    using i by (simp add: volatility_col_def length_rolling agg_std_21 [OF len])
qed

lemma volatility_constant_window:
  assumes "i < length close" and "21 \<le> i" and "c \<noteq> 0"
    and "\<forall>k. i - 21 \<le> k \<and> k \<le> i \<longrightarrow> close ! k = Num c"
  shows "volatility_col fm close ! i = Num 0"
proof -
  let ?dr = "pct_change fm close"
  have len: "length ?dr = length close" by (rule length_pct_change)
  have "take 21 (drop (i - 20) ?dr) = map Num (replicate 21 0)"
  proof (rule nth_equalityI)
    show "length (take 21 (drop (i - 20) ?dr)) = length (map Num (replicate 21 (0::real)))"
      using assms(1,2) len by simp
  next
    fix j assume "j < length (take 21 (drop (i - 20) ?dr))"
    then have j: "j < 21" by simp
    let ?k = "i - 20 + j"
    have k: "0 < ?k" "?k < length close" "i - 21 \<le> ?k - 1" "?k \<le> i"
      using assms(1,2) j by linarith+
    have "close ! (?k - 1) = Num c" using assms(4) k by simp
    moreover have "close ! ?k = Num c" using assms(4) k by simp
    ultimately have "?dr ! ?k = Num 0"
      using k assms(3) by (intro pct_change_constant_run [where c = c]) simp_all
    then show "take 21 (drop (i - 20) ?dr) ! j = map Num (replicate 21 0) ! j"
      using j assms(1,2) len by simp
  qed
  then have "volatility_col fm close ! i =
      Num (sqrt ((\<Sum>x\<leftarrow>replicate 21 (0::real). (x - sum_list (replicate 21 0) / 21)\<^sup>2) / (21 - 1)) * sqrt 252)"
    using assms(1,2) by (intro volatility_value) simp_all
  then show ?thesis by (simp add: sum_list_replicate)
qed

lemma iloc_from_end:
  assumes "0 < k"
  shows "iloc xs (- int k) =
           (if k \<le> length xs then Inr (xs ! (length xs - k)) else Inl IndexError)"
  using assms by (simp add: iloc_def)

section \<open>What \<open>calculate_metrics\<close> and the KPI row return\<close>

lemma calculate_metrics_absent:
  assumes "map_of (groups df) ticker = None"
  shows "calculate_metrics fm df ticker = (df, Inr None)"
  using assms by (simp add: calculate_metrics_def table_getitem_def)

lemma calculate_metrics_no_close:
  assumes "map_of (groups df) ticker = Some fs" and "map_of fs ''Close'' = None"
  shows "calculate_metrics fm df ticker = (df, Inl KeyError)"
  using assms
  by (simp add: calculate_metrics_def table_getitem_def copy_def get_col_def getitem_def)

lemma calculate_metrics_present:
  assumes "map_of (groups df) ticker = Some fs" and "map_of fs ''Close'' = Some close"
  shows "calculate_metrics fm df ticker =
           (df, Inr (Some \<lparr>index = dates df, cols = metrics_cols fm fs close\<rparr>))"
  using assms
  by (simp add: calculate_metrics_def table_getitem_def copy_def get_col_def getitem_def
      setitem_def update_conv' metrics_cols_def volatility_col_def)

lemma metrics_cols_lookup:
  "map_of (metrics_cols fm fs close) ''Close'' = map_of fs ''Close''"
  "map_of (metrics_cols fm fs close) ''Daily Return'' = Some (pct_change fm close)"
  "map_of (metrics_cols fm fs close) ''Volatility'' = Some (volatility_col fm close)"
  "map_of (metrics_cols fm fs close) ''SMA_50'' = Some (rolling 50 agg_mean close)"
  "map_of (metrics_cols fm fs close) ''SMA_200'' = Some (rolling 200 agg_mean close)"
  by (simp_all add: metrics_cols_def update_conv')

lemma metrics_cols_fresh:
  assumes "''Daily Return'' \<notin> fst ` set fs" and "''Volatility'' \<notin> fst ` set fs"
    and "''SMA_50'' \<notin> fst ` set fs" and "''SMA_200'' \<notin> fst ` set fs"
  shows "metrics_cols fm fs close =
           fs @ [(''Daily Return'', pct_change fm close),
                 (''Volatility'', volatility_col fm close),
                 (''SMA_50'', rolling 50 agg_mean close),
                 (''SMA_200'', rolling 200 agg_mean close)]"
  using assms by (simp add: metrics_cols_def update_absent_append)

lemma main_kpi_present:
  assumes "map_of (groups df) ticker = Some fs" and "map_of fs ''Close'' = Some close"
  shows "main_kpi fm df ticker =
           (if length close < 252 then Raised IndexError
            else Kpi (close ! (length close - 1))
                     (volatility_col fm close ! (length close - 1))
                     (fmul (fsub (fdiv (close ! (length close - 1))
                                       (close ! (length close - 252))) (Num 1)) (Num 100)))"
proof -
  have i1: "iloc xs (- 1) = (if 1 \<le> length xs then Inr (xs ! (length xs - 1)) else Inl IndexError)"
    for xs :: column
    using iloc_from_end [of 1 xs] by simp
  have i252: "iloc xs (- 252) =
                (if 252 \<le> length xs then Inr (xs ! (length xs - 252)) else Inl IndexError)"
    for xs :: column
    using iloc_from_end [of 252 xs] by simp
  show ?thesis
    using assms(2)
    by (simp add: main_kpi_def calculate_metrics_present [OF assms] getitem_def
        metrics_cols_lookup i1 i252 length_volatility_col)
qed

section \<open>Lemmas on the correlation coefficient\<close>

lemma four_mult_le_square:
  fixes u v :: real
  shows "4 * (u * v) \<le> (u + v)\<^sup>2"
proof -
  have "0 \<le> (u - v)\<^sup>2" by simp
  also have "(u - v)\<^sup>2 = (u + v)\<^sup>2 - 4 * (u * v)"
    by (simp add: power2_sum power2_diff)
  finally show ?thesis by simp
qed

lemma cross_term_le:
  fixes S X Y a b :: real
  assumes "S\<^sup>2 \<le> X * Y" and "0 \<le> X" and "0 \<le> Y"
  shows "2 * (S * a * b) \<le> X * b\<^sup>2 + Y * a\<^sup>2"
proof -
  define u where "u = X * b\<^sup>2"
  define v where "v = Y * a\<^sup>2"
  define t where "t = S * a * b"
  have u0: "0 \<le> u" and v0: "0 \<le> v" using assms(2,3) by (simp_all add: u_def v_def)
  have "t\<^sup>2 = S\<^sup>2 * (a\<^sup>2 * b\<^sup>2)" by (simp add: t_def power_mult_distrib)
  also have "\<dots> \<le> (X * Y) * (a\<^sup>2 * b\<^sup>2)"
    using assms(1) by (rule mult_right_mono) simp
  also have "\<dots> = u * v" by (simp add: u_def v_def)
  finally have tuv: "t\<^sup>2 \<le> u * v" .
  have "(2 * t)\<^sup>2 = 4 * t\<^sup>2" by (simp add: power_mult_distrib)
  also have "\<dots> \<le> 4 * (u * v)" using tuv by simp
  also have "\<dots> \<le> (u + v)\<^sup>2" by (rule four_mult_le_square)
  finally have "(2 * t)\<^sup>2 \<le> (u + v)\<^sup>2" .
  moreover have "0 \<le> u + v" using u0 v0 by simp
  ultimately have "2 * t \<le> u + v" by (rule power2_le_imp_le)
  then show ?thesis by (simp add: t_def u_def v_def)
qed

lemma cauchy_schwarz_pairs:
  fixes ps :: "(real \<times> real) list"
  shows "(\<Sum>(a, b)\<leftarrow>ps. a * b)\<^sup>2 \<le> (\<Sum>(a, b)\<leftarrow>ps. a\<^sup>2) * (\<Sum>(a, b)\<leftarrow>ps. b\<^sup>2)"
proof (induction ps)
  case Nil
  then show ?case by simp
next
  case (Cons p ps)
  obtain a b where p: "p = (a, b)" by (cases p)
  define S where "S = (\<Sum>(a, b)\<leftarrow>ps. a * b)"
  define X where "X = (\<Sum>(a, b)\<leftarrow>ps. a\<^sup>2)"
  define Y where "Y = (\<Sum>(a, b)\<leftarrow>ps. b\<^sup>2)"
  have X0: "0 \<le> X" unfolding X_def by (rule sum_list_nonneg) auto
  have Y0: "0 \<le> Y" unfolding Y_def by (rule sum_list_nonneg) auto
  have IH: "S\<^sup>2 \<le> X * Y" using Cons.IH by (simp add: S_def X_def Y_def)
  have cross: "2 * (S * a * b) \<le> X * b\<^sup>2 + Y * a\<^sup>2"
    by (rule cross_term_le [OF IH X0 Y0])
  have "(a * b + S)\<^sup>2 = S\<^sup>2 + 2 * (S * a * b) + a\<^sup>2 * b\<^sup>2"
    by (simp add: power2_sum power_mult_distrib)
  also have "\<dots> \<le> X * Y + (X * b\<^sup>2 + Y * a\<^sup>2) + a\<^sup>2 * b\<^sup>2"
    using IH cross by linarith
  also have "\<dots> = (a\<^sup>2 + X) * (b\<^sup>2 + Y)" by (simp add: distrib_left distrib_right)
  finally have "(a * b + S)\<^sup>2 \<le> (a\<^sup>2 + X) * (b\<^sup>2 + Y)" .
  then show ?case by (simp add: p S_def X_def Y_def)
qed

lemma ssd_nonneg: "0 \<le> ssd xs"
  unfolding ssd_def by (rule sum_list_nonneg) auto

lemma ssd_zero_iff_constant:
  "ssd xs = 0 \<longleftrightarrow> (\<forall>x\<in>set xs. \<forall>y\<in>set xs. x = y)"
proof
  assume "ssd xs = 0"
  then have "(\<Sum>x\<leftarrow>xs. (x - mean xs)\<^sup>2) = 0" by (simp add: ssd_def)
  moreover have "\<forall>v\<in>set (map (\<lambda>x. (x - mean xs)\<^sup>2) xs). 0 \<le> v" by auto
  ultimately have "\<forall>v\<in>set (map (\<lambda>x. (x - mean xs)\<^sup>2) xs). v = 0"
    using sum_list_nonneg_eq_0_iff [of "map (\<lambda>x. (x - mean xs)\<^sup>2) xs"] by blast
  then have "\<forall>x\<in>set xs. x = mean xs" by simp
  then show "\<forall>x\<in>set xs. \<forall>y\<in>set xs. x = y" by metis
next
  assume eq: "\<forall>x\<in>set xs. \<forall>y\<in>set xs. x = y"
  show "ssd xs = 0"
  proof (cases xs)
    case Nil
    then show ?thesis by (simp add: ssd_def)
  next
    case (Cons c cs)
    then have "\<forall>y\<in>set xs. y = c" using eq by simp
    then have r: "replicate (length xs) c = xs" by (rule replicate_length_same)
    have n: "real (length xs) \<noteq> 0" using Cons by simp
    have "sum_list xs = real (length xs) * c"
      by (subst r [symmetric]) (simp add: sum_list_replicate)
    then have m: "mean xs = c" using n by (simp add: mean_def)
    have "ssd xs = (\<Sum>x\<leftarrow>replicate (length xs) c. (x - c)\<^sup>2)"
      unfolding ssd_def m r ..
    then show ?thesis by (simp add: sum_list_replicate)
  qed
qed

lemma ssd_as_pairs:
  "ssd (map fst ps) = (\<Sum>(a, b)\<leftarrow>map (\<lambda>(x, y). (x - mean (map fst ps), y - mean (map snd ps))) ps. a\<^sup>2)"
  "ssd (map snd ps) = (\<Sum>(a, b)\<leftarrow>map (\<lambda>(x, y). (x - mean (map fst ps), y - mean (map snd ps))) ps. b\<^sup>2)"
  by (simp_all add: ssd_def comp_def case_prod_unfold)

lemma spd_as_pairs:
  "spd (map fst ps) (map snd ps) =
     (\<Sum>(a, b)\<leftarrow>map (\<lambda>(x, y). (x - mean (map fst ps), y - mean (map snd ps))) ps. a * b)"
  by (simp add: spd_def zip_map_fst_snd comp_def case_prod_unfold)

lemma spd_squared_le:
  "(spd (map fst ps) (map snd ps))\<^sup>2 \<le> ssd (map fst ps) * ssd (map snd ps)"
  unfolding ssd_as_pairs spd_as_pairs by (rule cauchy_schwarz_pairs)

lemma nancorr_bounds:
  assumes "nancorr cx cy = Num r"
  shows "- 1 \<le> r \<and> r \<le> 1"
proof -
  define ps where "ps = complete_pairs cx cy"
  define d where "d = sqrt (ssd (map fst ps) * ssd (map snd ps))"
  from assms have d0: "d \<noteq> 0" and r: "r = spd (map fst ps) (map snd ps) / d"
    by (auto simp: nancorr_def Let_def ps_def d_def split: if_splits)
  have "0 \<le> d" unfolding d_def by (simp add: ssd_nonneg)
  with d0 have dpos: "0 < d" by simp
  have "(spd (map fst ps) (map snd ps))\<^sup>2 \<le> d\<^sup>2"
    using spd_squared_le [of ps] by (simp add: d_def ssd_nonneg)
  then have "\<bar>spd (map fst ps) (map snd ps)\<bar> \<le> d"
    using dpos by (simp add: abs_le_square_iff [symmetric])
  then have "\<bar>r\<bar> \<le> 1" using dpos by (simp add: r)
  then show ?thesis by linarith
qed

lemma nancorr_empty: "complete_pairs cx cy = [] \<Longrightarrow> nancorr cx cy = NaN"
  by (simp add: nancorr_def)

lemma nancorr_constant_left:
  "ssd (map fst (complete_pairs cx cy)) = 0 \<Longrightarrow> nancorr cx cy = NaN"
  by (simp add: nancorr_def Let_def)


lemma complete_pairs_swap:
  "complete_pairs cy cx = map (\<lambda>(x, y). (y, x)) (complete_pairs cx cy)"
  by (induction cx cy rule: complete_pairs.induct) auto

lemma complete_pairs_same:
  "complete_pairs c c = map (\<lambda>x. (x, x)) (observations c)"
  by (induction c rule: observations.induct) auto

lemma spd_commute: "spd (map snd ps) (map fst ps) = spd (map fst ps) (map snd ps)"
proof -
  have "zip (map snd ps) (map fst ps) = map (\<lambda>(x, y). (y, x)) ps"
    by (induction ps) auto
  then show ?thesis
    by (simp add: spd_def zip_map_fst_snd comp_def case_prod_unfold mult.commute)
qed

lemma nancorr_commute: "nancorr cy cx = nancorr cx cy"
proof -
  define ps where "ps = complete_pairs cx cy"
  have sw: "complete_pairs cy cx = map (\<lambda>(x, y). (y, x)) ps"
    unfolding ps_def by (rule complete_pairs_swap)
  have f: "map fst (map (\<lambda>(x, y). (y, x)) ps) = map snd ps"
    and g: "map snd (map (\<lambda>(x, y). (y, x)) ps) = map fst ps"
    by (simp_all add: comp_def case_prod_unfold)
  show ?thesis
    unfolding nancorr_def Let_def sw f g ps_def [symmetric]
    by (simp add: spd_commute mult.commute)
qed

lemma spd_same: "spd xs xs = ssd xs"
proof -
  have "zip xs xs = map (\<lambda>x. (x, x)) xs" by (induction xs) auto
  then show ?thesis by (simp add: spd_def ssd_def comp_def power2_eq_square)
qed

lemma nancorr_diagonal:
  "nancorr c c = (if ssd (observations c) = 0 then NaN else Num 1)"
proof -
  define xs where "xs = observations c"
  have ps: "complete_pairs c c = map (\<lambda>x. (x, x)) xs"
    unfolding xs_def by (rule complete_pairs_same)
  have f: "map fst (map (\<lambda>x. (x, x)) xs) = xs" "map snd (map (\<lambda>x. (x, x)) xs) = xs"
    by (simp_all add: comp_def)
  have s0: "0 \<le> ssd xs" by (rule ssd_nonneg)
  have sq: "sqrt (ssd xs * ssd xs) = ssd xs" using s0 by simp
  have e: "xs = [] \<Longrightarrow> ssd xs = 0" by (simp add: ssd_def)
  show ?thesis
    unfolding nancorr_def Let_def ps f sq spd_same xs_def [symmetric]
    using e by (cases "xs = []") auto
qed


section \<open>The frame the correlations are computed on\<close>


lemma nancorr_num_or_nan: "nancorr cx cy = NaN \<or> is_num (nancorr cx cy)"
  by (simp add: nancorr_def Let_def is_num_def)

lemma table_close_eq:
  "table_close df t =
     (case map_of (groups df) t of None \<Rightarrow> Inl KeyError
      | Some fs \<Rightarrow> (case map_of fs ''Close'' of None \<Rightarrow> Inl KeyError | Some c \<Rightarrow> Inr c))"
  by (simp add: table_close_def table_getitem_def get_col_def getitem_def split: option.splits)

lemma returns_defined_iff:
  "returns fm df t \<noteq> None \<longleftrightarrow> contains df t \<and> (\<exists>close. table_close df t = Inr close)"
  by (simp add: returns_def contains_def table_close_eq split: option.splits)

lemma close_prices_loop_step:
  "close_prices_loop fm df (t # rest) cp =
     (case returns fm df t of
        None \<Rightarrow> close_prices_loop fm df rest cp
      | Some r \<Rightarrow> close_prices_loop fm df rest (assign_series cp (dates df) t r))"
  by (simp add: contains_def table_close_eq returns_def split: option.splits)

lemma loop_lookup:
  "map_of (cols (close_prices_loop fm df ts cp)) t =
     (if t \<in> set ts \<and> returns fm df t \<noteq> None then returns fm df t else map_of (cols cp) t)"
proof (induction ts arbitrary: cp)
  case Nil
  then show ?case by simp
next
  case (Cons a ts)
  show ?case
  proof (cases "returns fm df a")
    case None
    then show ?thesis using Cons.IH [of cp] by (auto simp: close_prices_loop_step simp del: close_prices_loop.simps)
  next
    case (Some r)
    then show ?thesis
      using Cons.IH [of "assign_series cp (dates df) a r"]
      by (auto simp: close_prices_loop_step assign_series_def update_conv' simp del: close_prices_loop.simps)
  qed
qed

lemma loop_distinct:
  "distinct (map fst (cols cp)) \<Longrightarrow> distinct (map fst (cols (close_prices_loop fm df ts cp)))"
proof (induction ts arbitrary: cp)
  case Nil
  then show ?case by simp
next
  case (Cons a ts)
  show ?case
  proof (cases "returns fm df a")
    case None
    then show ?thesis using Cons by (simp add: close_prices_loop_step del: close_prices_loop.simps)
  next
    case (Some r)
    have "distinct (map fst (cols (assign_series cp (dates df) a r)))"
      using Cons.prems by (simp add: assign_series_def distinct_update)
    then show ?thesis using Cons.IH Some by (simp add: close_prices_loop_step del: close_prices_loop.simps)
  qed
qed

lemma loop_index:
  "index (close_prices_loop fm df ts cp) =
     (if index cp = [] \<and> (\<exists>t\<in>set ts. returns fm df t \<noteq> None) then dates df else index cp)"
proof (induction ts arbitrary: cp)
  case Nil
  then show ?case by simp
next
  case (Cons a ts)
  show ?case
  proof (cases "returns fm df a")
    case None
    then show ?thesis using Cons.IH [of cp] by (simp add: close_prices_loop_step del: close_prices_loop.simps)
  next
    case (Some r)
    then show ?thesis
      using Cons.IH [of "assign_series cp (dates df) a r"]
      by (auto simp: close_prices_loop_step assign_series_def simp del: close_prices_loop.simps)
  qed
qed

lemma close_prices_lookup:
  "map_of (cols (close_prices fm df tickers)) t =
     (if t \<in> set tickers then returns fm df t else None)"
  by (simp add: close_prices_def loop_lookup)

lemma close_prices_distinct: "distinct (map fst (cols (close_prices fm df tickers)))"
  by (simp add: close_prices_def loop_distinct)

lemma close_prices_member:
  "(t, r) \<in> set (cols (close_prices fm df tickers)) \<longleftrightarrow>
     t \<in> set tickers \<and> returns fm df t = Some r"
  using map_of_eq_Some_iff [OF close_prices_distinct, of fm df tickers t r]
  by (auto simp: close_prices_lookup split: if_splits)

lemma close_prices_labels:
  "set (map fst (cols (close_prices fm df tickers))) =
     {t \<in> set tickers. returns fm df t \<noteq> None}"
proof -
  have "t \<in> set (map fst (cols (close_prices fm df tickers))) \<longleftrightarrow>
          (\<exists>r. (t, r) \<in> set (cols (close_prices fm df tickers)))" for t
    by (simp add: image_iff Bex_def)
  then have "t \<in> set (map fst (cols (close_prices fm df tickers))) \<longleftrightarrow>
               t \<in> set tickers \<and> returns fm df t \<noteq> None" for t
    by (simp add: close_prices_member)
  then show ?thesis by blast
qed

lemma close_prices_index:
  "index (close_prices fm df tickers) =
     (if \<exists>t\<in>set tickers. returns fm df t \<noteq> None then dates df else [])"
  by (simp add: close_prices_def loop_index)

lemma row_complete_close_prices:
  "row_complete (close_prices fm df tickers) i \<longleftrightarrow>
     list_all (\<lambda>t. case returns fm df t of None \<Rightarrow> True | Some r \<Rightarrow> cell_at r i \<noteq> NaN) tickers"
proof -
  have "row_complete (close_prices fm df tickers) i \<longleftrightarrow>
          (\<forall>t r. (t, r) \<in> set (cols (close_prices fm df tickers)) \<longrightarrow> cell_at r i \<noteq> NaN)"
    by (auto simp: row_complete_def list_all_iff)
  also have "\<dots> \<longleftrightarrow> (\<forall>t\<in>set tickers. \<forall>r. returns fm df t = Some r \<longrightarrow> cell_at r i \<noteq> NaN)"
    by (auto simp: close_prices_member)
  also have "\<dots> \<longleftrightarrow>
      list_all (\<lambda>t. case returns fm df t of None \<Rightarrow> True | Some r \<Rightarrow> cell_at r i \<noteq> NaN) tickers"
    by (auto simp: list_all_iff split: option.splits)
  finally show ?thesis .
qed

lemma kept_rows_close_prices:
  "kept_rows (close_prices fm df tickers) =
     (if \<exists>t\<in>set tickers. returns fm df t \<noteq> None then common_rows fm df tickers else [])"
proof -
  have "row_complete (close_prices fm df tickers) =
          (\<lambda>i. list_all (\<lambda>t. case returns fm df t of None \<Rightarrow> True
                                  | Some r \<Rightarrow> cell_at r i \<noteq> NaN) tickers)"
    by (rule ext) (rule row_complete_close_prices)
  then show ?thesis
    by (simp add: kept_rows_def close_prices_index common_rows_def)
qed



lemma dropna_column:
  assumes "i < length (cols (close_prices fm df tickers))"
  shows "cols (dropna (close_prices fm df tickers)) ! i =
           (fst (cols (close_prices fm df tickers) ! i),
            retained_returns fm df tickers (fst (cols (close_prices fm df tickers) ! i)))"
proof -
  let ?cp = "close_prices fm df tickers"
  obtain t r where tr: "cols ?cp ! i = (t, r)" by (cases "cols ?cp ! i")
  then have mem: "(t, r) \<in> set (cols ?cp)" using assms by (metis nth_mem)
  then have t: "t \<in> set tickers" and r: "returns fm df t = Some r"
    by (simp_all add: close_prices_member)
  then have k: "kept_rows ?cp = common_rows fm df tickers"
    by (auto simp: kept_rows_close_prices)
  show ?thesis
    using assms tr by (simp add: dropna_def k retained_returns_def r)
qed

lemma corr_entry:
  assumes "i < length (cols f)" and "j < length (cols f)"
  shows "entries (corr f) ! i ! j = nancorr (snd (cols f ! i)) (snd (cols f ! j))"
  using assms by (simp add: corr_def case_prod_unfold)

lemma length_cols_dropna: "length (cols (dropna f)) = length (cols f)"
  by (simp add: dropna_def)

lemma calculate_correlation_eq:
  "calculate_correlation fm df tickers = corr (dropna (close_prices fm df tickers))"
  by (simp add: calculate_correlation_def)

lemma correlation_labels:
  "labels (calculate_correlation fm df tickers) = map fst (cols (close_prices fm df tickers))"
  by (simp add: calculate_correlation_eq corr_def dropna_def comp_def case_prod_unfold)

lemma correlation_shape:
  "length (entries (calculate_correlation fm df tickers)) =
     length (labels (calculate_correlation fm df tickers))"
  "i < length (labels (calculate_correlation fm df tickers)) \<Longrightarrow>
     length (entries (calculate_correlation fm df tickers) ! i) =
       length (labels (calculate_correlation fm df tickers))"
  by (simp_all add: calculate_correlation_eq corr_def dropna_def case_prod_unfold)


lemma correlation_entry:
  assumes "i < length (labels (calculate_correlation fm df tickers))"
    and "j < length (labels (calculate_correlation fm df tickers))"
  shows "entries (calculate_correlation fm df tickers) ! i ! j =
           nancorr (retained_returns fm df tickers
                      (labels (calculate_correlation fm df tickers) ! i))
                   (retained_returns fm df tickers
                      (labels (calculate_correlation fm df tickers) ! j))"
proof -
  let ?cp = "close_prices fm df tickers"
  have i: "i < length (cols ?cp)" and j: "j < length (cols ?cp)"
    using assms by (simp_all add: correlation_labels)
  have "entries (corr (dropna ?cp)) ! i ! j =
          nancorr (snd (cols (dropna ?cp) ! i)) (snd (cols (dropna ?cp) ! j))"
    using i j by (intro corr_entry) (simp_all add: length_cols_dropna)
  then show ?thesis
    using i j
    by (simp add: calculate_correlation_eq [symmetric] dropna_column correlation_labels)
qed


lemma correlation_labels_set:
  "distinct (labels (calculate_correlation fm df tickers)) \<and>
   set (labels (calculate_correlation fm df tickers)) =
     {t \<in> set tickers. returns fm df t \<noteq> None}"
  unfolding correlation_labels using close_prices_distinct close_prices_labels by blast



lemma correlation_diagonal:
  assumes "i < length (labels (calculate_correlation fm df tickers))"
  shows "entries (calculate_correlation fm df tickers) ! i ! i =
           (if ssd (common_returns fm df tickers
                      (labels (calculate_correlation fm df tickers) ! i)) = 0
            then NaN else Num 1)"
  unfolding correlation_entry [OF assms assms]
  by (simp add: nancorr_diagonal common_returns_def)

lemma singleton_list:
  assumes "distinct xs" and "set xs = {x}"
  shows "xs = [x]"
proof -
  have "length xs = card (set xs)" using assms(1) by (simp add: distinct_card)
  then have "length xs = 1" using assms(2) by simp
  then obtain y where "xs = [y]" by (cases xs) auto
  with assms(2) show ?thesis by simp
qed

lemma corr_matrix_eqI:
  fixes M :: corr_matrix
  assumes "labels M = ls" and "entries M = es"
  shows "M = \<lparr>labels = ls, entries = es\<rparr>"
  using assms by (cases M) simp


lemma table_close_present:
  assumes "map_of (groups df) ticker = Some fs" and "map_of fs ''Close'' = Some close"
  shows "table_close df ticker = Inr close"
  using assms by (simp add: table_close_eq)

lemma rolling_short_column:
  assumes "length xs < w"
  shows "rolling w agg xs = replicate (length xs) NaN"
proof (rule nth_equalityI)
  show "length (rolling w agg xs) = length (replicate (length xs) NaN)"
    by (simp add: length_rolling)
next
  fix i assume "i < length (rolling w agg xs)"
  then have i: "i < length xs" by (simp add: length_rolling)
  then have "i + 1 < w" using assms by linarith
  then show "rolling w agg xs ! i = replicate (length xs) NaN ! i"
    using i by (simp add: rolling_nth_short)
qed

section \<open>Evaluation on the example tables\<close>

lemmas eval_returns = returns_def pct_change_def Let_def filled_def ffill_def shift_def

lemmas eval_close_prices =
  close_prices_def contains_def table_close_eq assign_series_def pct_change_def Let_def
  filled_def ffill_def shift_def

lemmas eval_dropna = dropna_def kept_rows_def row_complete_def cell_at_def










lemma df_v_returns:
  "returns NoFill df_v ''AAPL'' = Some [NaN, PInf, NaN, NaN, PInf]"
  "returns NoFill df_v ''MSFT'' = Some [NaN, Num 1, Num (1 / 2), Num (1 / 3), Num (1 / 2)]"
  by (simp_all add: eval_returns df_v_def)

lemma df_v_rows: "[0..<length (dates df_v)] = [0, 1, 2, 3, 4]"
  by (simp add: df_v_def upt_rec)

lemma df_v_common_rows: "common_rows NoFill df_v [''AAPL'', ''MSFT''] = [1, 4]"
  unfolding common_rows_def df_v_rows by (simp add: df_v_returns cell_at_def)

lemma df_v_common_returns:
  "common_returns NoFill df_v [''AAPL'', ''MSFT''] ''AAPL'' = []"
  "common_returns NoFill df_v [''AAPL'', ''MSFT''] ''MSFT'' = [1, 1 / 2]"
  by (simp_all add: common_returns_def retained_returns_def df_v_returns df_v_common_rows
      cell_at_def)

lemma df_v_labels:
  "labels (calculate_correlation NoFill df_v [''AAPL'', ''MSFT'']) = [''AAPL'', ''MSFT'']"
  unfolding correlation_labels by (simp add: eval_close_prices df_v_def)

lemma df_w5_returns:
  "returns fm df_w5 ''AAPL'' = Some [NaN, Num 1, Num (1 / 2), Num 1]"
  "returns fm df_w5 ''MSFT'' = Some [NaN, Num (1 / 2), Num 1, Num (1 / 2)]"
  "returns fm df_w5 ''ZZZZ'' = None"
  by (cases fm; simp add: eval_returns df_w5_def)+

lemma df_w5_rows: "[0..<length (dates df_w5)] = [0, 1, 2, 3]"
  by (simp add: df_w5_def upt_rec)

lemma df_w5_common_rows:
  "common_rows fm df_w5 [''AAPL'', ''ZZZZ''] = [1, 2, 3]"
  unfolding common_rows_def df_w5_rows by (simp_all add: df_w5_returns cell_at_def)

lemma df_w5_common_returns:
  "common_returns fm df_w5 [''AAPL'', ''ZZZZ''] ''AAPL'' = [1, 1 / 2, 1]"
  by (simp_all add: common_returns_def retained_returns_def df_w5_returns df_w5_common_rows
      cell_at_def)

section \<open>The 1-year return of the KPI row\<close>

text \<open>
  Claim C1 (as amended). For a selected ticker present in the table with a Close column:
  when the close series has fewer than 252 rows the KPI row fails with the out-of-range
  error, and when it has 252 rows or more the 1-year return is computed, from the last
  close and the close 252 positions from the end, \<open>(close[n-1] / close[n-252] - 1) * 100\<close>.
  The claim as stated puts the limit at 253 rows and fails at a series of 252 rows.
\<close>

theorem one_year_return_fails_below_252_rows:
  assumes "map_of (groups df) ticker = Some fs" and "map_of fs ''Close'' = Some close"
  shows "(length close < 252 \<longrightarrow> main_kpi fm df ticker = Raised IndexError) \<and>
         (252 \<le> length close \<longrightarrow>
            (\<exists>latest_close latest_volatility.
               main_kpi fm df ticker =
                 Kpi latest_close latest_volatility
                   (fmul (fsub (fdiv (close ! (length close - 1)) (close ! (length close - 252)))
                      (Num 1)) (Num 100))))"
  by (simp add: main_kpi_present [OF assms])

theorem one_year_return_fails_below_252_rows_witness:
  "map_of (groups df_w1) ''AAPL'' = Some [(''Close'', replicate 251 (Num 100))] \<and>
   length (replicate 251 (Num 100)) < 252 \<and>
   main_kpi NoFill df_w1 ''AAPL'' = Raised IndexError \<and>
   map_of (groups df_c1) ''AAPL'' = Some [(''Close'', Num 50 # replicate 251 (Num 100))] \<and>
   (\<exists>latest_close latest_volatility.
      main_kpi Pad df_c1 ''AAPL'' = Kpi latest_close latest_volatility (Num 100))"
proof -
  let ?short = "replicate 251 (Num 100)"
  let ?long = "Num 50 # replicate 251 (Num 100)"
  have g1: "map_of (groups df_w1) ''AAPL'' = Some [(''Close'', ?short)]"
    by (simp add: df_w1_def)
  have c1: "map_of [(''Close'', ?short)] ''Close'' = Some ?short" by simp
  have g2: "map_of (groups df_c1) ''AAPL'' = Some [(''Close'', ?long)]"
    by (simp add: df_c1_def)
  have c2: "map_of [(''Close'', ?long)] ''Close'' = Some ?long" by simp
  have r1: "main_kpi NoFill df_w1 ''AAPL'' = Raised IndexError"
    using one_year_return_fails_below_252_rows [OF g1 c1, of NoFill] by simp
  have v: "fmul (fsub (fdiv (?long ! (length ?long - 1)) (?long ! (length ?long - 252)))
             (Num 1)) (Num 100) = Num 100"
    by (simp add: nth_Cons' )
  have "\<exists>latest_close latest_volatility.
          main_kpi Pad df_c1 ''AAPL'' =
            Kpi latest_close latest_volatility
              (fmul (fsub (fdiv (?long ! (length ?long - 1)) (?long ! (length ?long - 252)))
                 (Num 1)) (Num 100))"
    using one_year_return_fails_below_252_rows [OF g2 c2, of Pad] by simp
  then have r2: "\<exists>latest_close latest_volatility.
                   main_kpi Pad df_c1 ''AAPL'' = Kpi latest_close latest_volatility (Num 100)"
    unfolding v .
  from g1 r1 g2 r2 show ?thesis by simp
qed

theorem one_year_return_counterexample:
  "length (Num 50 # replicate 251 (Num 100)) < 253 \<and>
   map_of (groups df_c1) ''AAPL'' = Some [(''Close'', Num 50 # replicate 251 (Num 100))] \<and>
   main_kpi NoFill df_c1 ''AAPL'' = Kpi (Num 100) (Num 0) (Num 100) \<and>
   main_kpi Pad df_c1 ''AAPL'' = Kpi (Num 100) (Num 0) (Num 100)"
proof -
  let ?cl = "Num 50 # replicate 251 (Num 100)"
  have g: "map_of (groups df_c1) ''AAPL'' = Some [(''Close'', ?cl)]" by (simp add: df_c1_def)
  have c: "map_of [(''Close'', ?cl)] ''Close'' = Some ?cl" by simp
  have n: "length ?cl = 252" by simp
  have last: "?cl ! 251 = Num 100" by (simp add: nth_Cons')
  have first: "?cl ! 0 = Num 50" by simp
  have run: "\<forall>k. (251::nat) - 21 \<le> k \<and> k \<le> 251 \<longrightarrow> ?cl ! k = Num 100"
    by (auto simp: nth_Cons')
  have v: "volatility_col fm ?cl ! 251 = Num 0" for fm
    using run by (intro volatility_constant_window [where c = 100]) simp_all
  have "main_kpi fm df_c1 ''AAPL'' =
          Kpi (?cl ! 251) (volatility_col fm ?cl ! 251)
            (fmul (fsub (fdiv (?cl ! 251) (?cl ! 0)) (Num 1)) (Num 100))" for fm
    unfolding main_kpi_present [OF g c] n by simp
  then have "main_kpi fm df_c1 ''AAPL'' = Kpi (Num 100) (Num 0) (Num 100)" for fm
    unfolding last first v by simp
  with g show ?thesis by simp
qed

section \<open>The per-ticker metrics engine\<close>

text \<open>
  Claim C3. For a price table in which the ticker's sub-table, when there is one, has a Close
  column: \<open>calculate_metrics\<close> returns \<open>None\<close> (the NotFound signal, no partial
  result) exactly when the ticker is absent from the table. Exactly when the ticker is
  present it returns the per-date metrics table of that ticker: its index is the dates of
  the price table, its Close column is the ticker's Close column, its Daily Return column
  is \<open>pct_change\<close> of these closes, its Volatility column is the 21-row rolling sample
  standard deviation of these returns times the square root of 252, its SMA_50 and
  SMA_200 columns are the 50-row and 200-row rolling means of the closes; each of these columns has
  one cell per row of Close.
\<close>

theorem compute_metrics_not_found_iff_absent:
  assumes "\<forall>fs. map_of (groups df) ticker = Some fs \<longrightarrow> map_of fs ''Close'' \<noteq> None"
  shows "(snd (calculate_metrics fm df ticker) = Inr None \<longleftrightarrow> \<not> contains df ticker) \<and>
         (contains df ticker \<longleftrightarrow>
            (\<exists>f close.
               table_close df ticker = Inr close \<and>
               snd (calculate_metrics fm df ticker) = Inr (Some f) \<and>
               index f = dates df \<and>
               getitem f ''Close'' = Inr close \<and>
               getitem f ''Daily Return'' = Inr (pct_change fm close) \<and>
               getitem f ''Volatility'' = Inr (volatility_col fm close) \<and>
               getitem f ''SMA_50'' = Inr (rolling 50 agg_mean close) \<and>
               getitem f ''SMA_200'' = Inr (rolling 200 agg_mean close) \<and>
               length (pct_change fm close) = length close \<and>
               length (volatility_col fm close) = length close \<and>
               length (rolling 50 agg_mean close) = length close \<and>
               length (rolling 200 agg_mean close) = length close))"
proof (cases "map_of (groups df) ticker")
  case None
  then show ?thesis
    by (simp add: calculate_metrics_absent contains_def)
next
  case (Some fs)
  with assms obtain close where cl: "map_of fs ''Close'' = Some close" by auto
  show ?thesis
    using Some cl
    by (simp add: calculate_metrics_present [OF Some cl] table_close_present [OF Some cl]
        contains_def getitem_def metrics_cols_lookup length_pct_change length_rolling
        length_volatility_col)
qed

theorem compute_metrics_not_found_iff_absent_witness:
  "map_of (groups df_w3) ''AAPL'' = Some [(''Close'', [Num 1, Num 2])] \<and>
   map_of [(''Close'', [Num 1, Num 2])] ''Close'' = Some [Num 1, Num 2] \<and>
   contains df_w3 ''AAPL'' \<and>
   (\<exists>f. snd (calculate_metrics NoFill df_w3 ''AAPL'') = Inr (Some f) \<and>
        index f = [0, 1] \<and>
        getitem f ''Close'' = Inr [Num 1, Num 2] \<and>
        getitem f ''Daily Return'' = Inr [NaN, Num 1] \<and>
        getitem f ''Volatility'' = Inr [NaN, NaN] \<and>
        getitem f ''SMA_50'' = Inr [NaN, NaN] \<and>
        getitem f ''SMA_200'' = Inr [NaN, NaN]) \<and>
   map_of (groups df_w3) ''ZZZZ'' = None \<and>
   \<not> contains df_w3 ''ZZZZ'' \<and>
   snd (calculate_metrics NoFill df_w3 ''ZZZZ'') = Inr None"
proof -
  let ?cl = "[Num 1, Num 2]"
  have g1: "map_of (groups df_w3) ''AAPL'' = Some [(''Close'', ?cl)]"
    and g2: "map_of (groups df_w3) ''ZZZZ'' = None"
    by (simp_all add: df_w3_def)
  have k: "map_of [(''Close'', ?cl)] ''Close'' = Some ?cl" by simp
  have h1: "\<forall>fs. map_of (groups df_w3) ''AAPL'' = Some fs \<longrightarrow> map_of fs ''Close'' \<noteq> None"
    by (simp add: g1)
  have h2: "\<forall>fs. map_of (groups df_w3) ''ZZZZ'' = Some fs \<longrightarrow> map_of fs ''Close'' \<noteq> None"
    by (simp add: g2)
  have c1: "contains df_w3 ''AAPL''" and c2: "\<not> contains df_w3 ''ZZZZ''"
    by (simp_all add: g1 g2 contains_def)
  have tc: "table_close df_w3 ''AAPL'' = Inr ?cl" by (simp add: table_close_eq g1)
  have d: "dates df_w3 = [0, 1]" by (simp add: df_w3_def)
  have pc: "pct_change NoFill ?cl = [NaN, Num 1]"
    by (simp add: pct_change_def filled_def shift_def)
  have vol: "volatility_col NoFill ?cl = [NaN, NaN]"
    by (simp add: volatility_col_def pc rolling_short_column)
  have sma: "rolling 50 agg_mean ?cl = [NaN, NaN]" "rolling 200 agg_mean ?cl = [NaN, NaN]"
    by (simp_all add: rolling_short_column)
  from compute_metrics_not_found_iff_absent [OF h1, of NoFill] c1 tc
  have "\<exists>f. snd (calculate_metrics NoFill df_w3 ''AAPL'') = Inr (Some f) \<and>
             index f = dates df_w3 \<and>
             getitem f ''Close'' = Inr ?cl \<and>
             getitem f ''Daily Return'' = Inr (pct_change NoFill ?cl) \<and>
             getitem f ''Volatility'' = Inr (volatility_col NoFill ?cl) \<and>
             getitem f ''SMA_50'' = Inr (rolling 50 agg_mean ?cl) \<and>
             getitem f ''SMA_200'' = Inr (rolling 200 agg_mean ?cl)"
    by auto
  then have r1: "\<exists>f. snd (calculate_metrics NoFill df_w3 ''AAPL'') = Inr (Some f) \<and>
        index f = [0, 1] \<and>
        getitem f ''Close'' = Inr ?cl \<and>
        getitem f ''Daily Return'' = Inr [NaN, Num 1] \<and>
        getitem f ''Volatility'' = Inr [NaN, NaN] \<and>
        getitem f ''SMA_50'' = Inr [NaN, NaN] \<and>
        getitem f ''SMA_200'' = Inr [NaN, NaN]"
    unfolding d pc vol sma .
  from compute_metrics_not_found_iff_absent [OF h2, of NoFill] c2
  have r2: "snd (calculate_metrics NoFill df_w3 ''ZZZZ'') = Inr None" by simp
  from g1 k c1 r1 g2 c2 r2 show ?thesis by blast
qed

text \<open>
  Claim C8. For a ticker present in the table with closes \<open>p\<close>, under either fill method:
  the Daily Return column has one cell per close, its first cell is the missing value,
  and at every row \<open>i \<ge> 1\<close> whose close and previous close are numbers (the previous one
  not zero) it is \<open>p[i] / p[i-1] - 1\<close>.
\<close>

theorem daily_return_is_ratio_less_one:
  assumes "map_of (groups df) ticker = Some fs" and "map_of fs ''Close'' = Some p"
  shows "\<exists>f dr. snd (calculate_metrics fm df ticker) = Inr (Some f) \<and>
           getitem f ''Daily Return'' = Inr dr \<and> length dr = length p \<and>
           (p \<noteq> [] \<longrightarrow> dr ! 0 = NaN) \<and>
           (\<forall>i a b. 1 \<le> i \<and> i < length p \<and> p ! (i - 1) = Num a \<and> p ! i = Num b \<and> a \<noteq> 0
              \<longrightarrow> dr ! i = Num (b / a - 1))"
proof -
  let ?dr = "pct_change fm p"
  have "?dr ! i = Num (b / a - 1)"
    if "1 \<le> i" "i < length p" "p ! (i - 1) = Num a" "p ! i = Num b" "a \<noteq> 0" for i a b
    using that by (intro pct_change_Num) simp_all
  moreover have "p \<noteq> [] \<longrightarrow> ?dr ! 0 = NaN" by (simp add: pct_change_nth)
  ultimately show ?thesis
    by (simp add: calculate_metrics_present [OF assms] getitem_def metrics_cols_lookup
        length_pct_change)
qed

theorem daily_return_is_ratio_less_one_witness:
  "map_of (groups df_w8) ''MSFT'' = Some [(''Open'', [Num 9, Num 10, Num 12]),
                                           (''Close'', [Num 10, Num 12, Num 9])] \<and>
   (\<exists>f dr. snd (calculate_metrics Pad df_w8 ''MSFT'') = Inr (Some f) \<and>
      getitem f ''Daily Return'' = Inr dr \<and> length dr = 3 \<and> dr ! 0 = NaN \<and>
      dr ! 1 = Num (12 / 10 - 1) \<and> dr ! 2 = Num (9 / 12 - 1))"
proof -
  have g: "map_of (groups df_w8) ''MSFT'' = Some [(''Open'', [Num 9, Num 10, Num 12]),
                                           (''Close'', [Num 10, Num 12, Num 9])]"
    by (simp add: df_w8_def)
  have c: "map_of [(''Open'', [Num 9, Num 10, Num 12]),
                   (''Close'', [Num 10, Num 12, Num 9])] ''Close''
             = Some [Num 10, Num 12, Num 9]"
    by simp
  from daily_return_is_ratio_less_one [OF g c, of Pad]
  obtain f dr where r: "snd (calculate_metrics Pad df_w8 ''MSFT'') = Inr (Some f)"
      "getitem f ''Daily Return'' = Inr dr" "length dr = 3" "dr ! 0 = NaN"
      and step: "\<forall>i a b. 1 \<le> i \<and> i < 3 \<and> [Num 10, Num 12, Num 9] ! (i - 1) = Num a \<and>
                 [Num 10, Num 12, Num 9] ! i = Num b \<and> a \<noteq> 0 \<longrightarrow> dr ! i = Num (b / a - 1)"
    by auto
  from step [rule_format, of 1 10 12] have "dr ! 1 = Num (12 / 10 - 1)" by simp
  moreover from step [rule_format, of 2 12 9] have "dr ! 2 = Num (9 / 12 - 1)" by simp
  ultimately show ?thesis using g r by blast
qed

text \<open>
  Claim C4. For a ticker present in the table, the returned table is indexed by the dates
  of the price table and holds the ticker's closes; its Daily Return and Volatility
  columns have one cell per close. The first return is the missing value and the return
  of a later row is the ratio of its close to the previous close, less one. The
  Volatility cell of a row is a number exactly when the row has twenty rows before it and
  the 21 daily returns ending at and including the row are all numbers; it is then the
  sample standard deviation of those 21 returns (divisor 21 - 1) times the square root of
  252. Everywhere else it is the missing value.
\<close>

theorem volatility_trailing_21_sample_std:
  assumes "map_of (groups df) ticker = Some fs" and "map_of fs ''Close'' = Some close"
  shows "\<exists>f dr vol. snd (calculate_metrics fm df ticker) = Inr (Some f) \<and>
           index f = dates df \<and>
           getitem f ''Close'' = Inr close \<and>
           getitem f ''Daily Return'' = Inr dr \<and> getitem f ''Volatility'' = Inr vol \<and>
           length dr = length close \<and> length vol = length close \<and>
           (close \<noteq> [] \<longrightarrow> dr ! 0 = NaN) \<and>
           (\<forall>k a b. 1 \<le> k \<and> k < length close \<and> close ! (k - 1) = Num a \<and>
                    close ! k = Num b \<and> a \<noteq> 0 \<longrightarrow> dr ! k = Num (b / a - 1)) \<and>
           (\<forall>i<length close.
              (vol ! i \<noteq> NaN \<longleftrightarrow>
                 20 \<le> i \<and> (\<forall>k. i - 20 \<le> k \<and> k \<le> i \<longrightarrow> is_num (dr ! k))) \<and>
              (\<forall>ws. 20 \<le> i \<and> take 21 (drop (i - 20) dr) = map Num ws \<longrightarrow>
                 vol ! i = Num (sqrt ((\<Sum>x\<leftarrow>ws. (x - sum_list ws / 21)\<^sup>2) / (21 - 1)) * sqrt 252)))"
proof -
  let ?dr = "pct_change fm close"
  let ?vol = "volatility_col fm close"
  let ?f = "\<lparr>index = dates df, cols = metrics_cols fm fs close\<rparr>"
  have res: "snd (calculate_metrics fm df ticker) = Inr (Some ?f)"
    by (simp add: calculate_metrics_present [OF assms])
  have cols: "index ?f = dates df" "getitem ?f ''Close'' = Inr close"
    "getitem ?f ''Daily Return'' = Inr ?dr" "getitem ?f ''Volatility'' = Inr ?vol"
    using assms(2) by (simp_all add: getitem_def metrics_cols_lookup)
  have lens: "length ?dr = length close" "length ?vol = length close"
    by (simp_all add: length_pct_change length_volatility_col)
  have first: "close \<noteq> [] \<longrightarrow> ?dr ! 0 = NaN" by (simp add: pct_change_nth)
  have ratio: "\<forall>k a b. 1 \<le> k \<and> k < length close \<and> close ! (k - 1) = Num a \<and>
                  close ! k = Num b \<and> a \<noteq> 0 \<longrightarrow> ?dr ! k = Num (b / a - 1)"
    by (auto intro: pct_change_Num)
  have body: "\<forall>i<length close.
              (?vol ! i \<noteq> NaN \<longleftrightarrow>
                 20 \<le> i \<and> (\<forall>k. i - 20 \<le> k \<and> k \<le> i \<longrightarrow> is_num (?dr ! k))) \<and>
              (\<forall>ws. 20 \<le> i \<and> take 21 (drop (i - 20) ?dr) = map Num ws \<longrightarrow>
                 ?vol ! i = Num (sqrt ((\<Sum>x\<leftarrow>ws. (x - sum_list ws / 21)\<^sup>2) / (21 - 1)) * sqrt 252))"
    using volatility_defined_iff [of _ close fm] volatility_value [of _ close fm] by blast
  from res cols lens first ratio body show ?thesis by blast
qed

theorem volatility_trailing_21_sample_std_witness:
  "map_of (groups df_w4) ''IBM'' = Some [(''Close'', Num 1 # replicate 21 (Num 2))] \<and>
   (\<exists>f dr vol. snd (calculate_metrics NoFill df_w4 ''IBM'') = Inr (Some f) \<and>
      getitem f ''Daily Return'' = Inr dr \<and> getitem f ''Volatility'' = Inr vol \<and>
      length vol = 22 \<and> dr ! 0 = NaN \<and> dr ! 1 = Num 1 \<and> dr ! 2 = Num 0 \<and>
      vol ! 20 = NaN \<and> vol ! 21 = Num (sqrt 12))"
proof -
  let ?cl = "Num 1 # replicate 21 (Num 2)"
  let ?fs = "[(''Close'', ?cl)]"
  have g: "map_of (groups df_w4) ''IBM'' = Some ?fs" by (simp add: df_w4_def)
  have c: "map_of ?fs ''Close'' = Some ?cl" by simp
  from volatility_trailing_21_sample_std [OF g c, of NoFill]
  obtain f dr vol where r: "snd (calculate_metrics NoFill df_w4 ''IBM'') = Inr (Some f)"
    and d: "getitem f ''Daily Return'' = Inr dr" and v: "getitem f ''Volatility'' = Inr vol"
    and ld: "length dr = length ?cl" and lv: "length vol = length ?cl"
    and first: "?cl \<noteq> [] \<longrightarrow> dr ! 0 = NaN"
    and ratio: "\<forall>k a b. 1 \<le> k \<and> k < length ?cl \<and> ?cl ! (k - 1) = Num a \<and>
                  ?cl ! k = Num b \<and> a \<noteq> 0 \<longrightarrow> dr ! k = Num (b / a - 1)"
    and w: "\<forall>i<length ?cl.
              (vol ! i \<noteq> NaN \<longleftrightarrow>
                 20 \<le> i \<and> (\<forall>k. i - 20 \<le> k \<and> k \<le> i \<longrightarrow> is_num (dr ! k))) \<and>
              (\<forall>ws. 20 \<le> i \<and> take 21 (drop (i - 20) dr) = map Num ws \<longrightarrow>
                 vol ! i = Num (sqrt ((\<Sum>x\<leftarrow>ws. (x - sum_list ws / 21)\<^sup>2) / (21 - 1)) * sqrt 252))"
    by blast
  have n: "length ?cl = 22" by simp
  have d0: "dr ! 0 = NaN" using first by simp
  have d1: "dr ! 1 = Num 1"
    using ratio [rule_format, of 1 1 2] by simp
  have dk: "dr ! k = Num 0" if "2 \<le> k" "k < 22" for k
  proof -
    have "?cl ! (k - 1) = Num 2" "?cl ! k = Num 2"
      using that by (simp_all add: nth_Cons')
    with ratio [rule_format, of k 2 2] that show ?thesis by simp
  qed
  have len: "length vol = 22" using lv by simp
  have "\<not> is_num (dr ! 0)" by (simp add: d0 is_num_def)
  then have n20: "\<not> (\<forall>k. (20::nat) - 20 \<le> k \<and> k \<le> 20 \<longrightarrow> is_num (dr ! k))"
    by (intro notI) (drule spec [of _ 0], simp)
  have lt: "20 < length ?cl" by simp
  from w [rule_format, OF lt, THEN conjunct1] n20 have v20: "vol ! 20 = NaN" by blast
  have tk: "take 21 (drop (21 - 20) dr) = map Num (1 # replicate 20 0)"
  proof (rule nth_equalityI)
    show "length (take 21 (drop (21 - 20) dr)) = length (map Num (1 # replicate 20 (0::real)))"
      using ld by simp
  next
    fix j assume "j < length (take 21 (drop (21 - 20) dr))"
    then have j: "j < 21" by simp
    show "take 21 (drop (21 - 20) dr) ! j = map Num (1 # replicate 20 0) ! j"
    proof (cases j)
      case 0
      then show ?thesis using ld d1 by simp
    next
      case (Suc m)
      then have "dr ! (1 + j) = Num 0" using j by (intro dk) simp_all
      then show ?thesis using ld j Suc by simp
    qed
  qed
  have lt21: "21 < length ?cl" by simp
  have hyp: "20 \<le> (21::nat) \<and> take 21 (drop (21 - 20) dr) = map Num (1 # replicate 20 0)"
    using tk by simp
  have e1: "(\<Sum>x\<leftarrow>1 # replicate 20 (0::real).
            (x - sum_list (1 # replicate 20 0) / 21)\<^sup>2) / (21 - 1) = 1 / 21"
    by (simp add: sum_list_replicate power2_eq_square)
  have e2: "sqrt (1 / 21) * sqrt 252 = sqrt 12"
    by (simp add: real_sqrt_mult [symmetric])
  from w [rule_format, OF lt21, THEN conjunct2, rule_format, OF hyp]
  have "vol ! 21 = Num (sqrt ((\<Sum>x\<leftarrow>1 # replicate 20 (0::real).
            (x - sum_list (1 # replicate 20 0) / 21)\<^sup>2) / (21 - 1)) * sqrt 252)" .
  then have v21: "vol ! 21 = Num (sqrt 12)" by (simp only: e1 e2)
  have d2: "dr ! 2 = Num 0" by (rule dk) simp_all
  from g r d v len d0 d1 d2 v20 v21 show ?thesis by blast
qed

text \<open>
  Claim C9. For a ticker present in the table: the SMA_50 (SMA_200) cell of a row is a
  number exactly when the 50 (200) closes ending at and including the row exist and are
  all numbers, and it is then their unweighted mean.
\<close>

theorem moving_averages_full_window_mean:
  assumes "map_of (groups df) ticker = Some fs" and "map_of fs ''Close'' = Some close"
  shows "\<exists>f s50 s200. snd (calculate_metrics fm df ticker) = Inr (Some f) \<and>
           getitem f ''Close'' = Inr close \<and>
           getitem f ''SMA_50'' = Inr s50 \<and> getitem f ''SMA_200'' = Inr s200 \<and>
           length s50 = length close \<and> length s200 = length close \<and>
           (\<forall>i<length close.
              (s50 ! i \<noteq> NaN \<longleftrightarrow>
                 49 \<le> i \<and> (\<forall>k. i - 49 \<le> k \<and> k \<le> i \<longrightarrow> is_num (close ! k))) \<and>
              (\<forall>ws. 49 \<le> i \<and> take 50 (drop (i - 49) close) = map Num ws \<longrightarrow>
                 s50 ! i = Num (sum_list ws / 50)) \<and>
              (s200 ! i \<noteq> NaN \<longleftrightarrow>
                 199 \<le> i \<and> (\<forall>k. i - 199 \<le> k \<and> k \<le> i \<longrightarrow> is_num (close ! k))) \<and>
              (\<forall>ws. 199 \<le> i \<and> take 200 (drop (i - 199) close) = map Num ws \<longrightarrow>
                 s200 ! i = Num (sum_list ws / 200)))"
proof -
  let ?s50 = "rolling 50 agg_mean close" and ?s200 = "rolling 200 agg_mean close"
  let ?f = "\<lparr>index = dates df, cols = metrics_cols fm fs close\<rparr>"
  have res: "snd (calculate_metrics fm df ticker) = Inr (Some ?f)"
    by (simp add: calculate_metrics_present [OF assms])
  have cols: "getitem ?f ''Close'' = Inr close" "getitem ?f ''SMA_50'' = Inr ?s50"
    "getitem ?f ''SMA_200'' = Inr ?s200"
    using assms(2) by (simp_all add: getitem_def metrics_cols_lookup)
  have lens: "length ?s50 = length close" "length ?s200 = length close"
    by (simp_all add: length_rolling)
  have d50: "?s50 ! i \<noteq> NaN \<longleftrightarrow>
               49 \<le> i \<and> (\<forall>k. i - 49 \<le> k \<and> k \<le> i \<longrightarrow> is_num (close ! k))"
    if "i < length close" for i
    using rolling_mean_defined_iff [OF that, of 50] by simp
  have d200: "?s200 ! i \<noteq> NaN \<longleftrightarrow>
               199 \<le> i \<and> (\<forall>k. i - 199 \<le> k \<and> k \<le> i \<longrightarrow> is_num (close ! k))"
    if "i < length close" for i
    using rolling_mean_defined_iff [OF that, of 200] by simp
  have v50: "?s50 ! i = Num (sum_list ws / 50)"
    if "i < length close" "49 \<le> i" "take 50 (drop (i - 49) close) = map Num ws" for i ws
    using rolling_mean_value [OF that(1), of 50 ws] that(2,3) by simp
  have v200: "?s200 ! i = Num (sum_list ws / 200)"
    if "i < length close" "199 \<le> i" "take 200 (drop (i - 199) close) = map Num ws" for i ws
    using rolling_mean_value [OF that(1), of 200 ws] that(2,3) by simp
  have body: "\<forall>i<length close.
              (?s50 ! i \<noteq> NaN \<longleftrightarrow>
                 49 \<le> i \<and> (\<forall>k. i - 49 \<le> k \<and> k \<le> i \<longrightarrow> is_num (close ! k))) \<and>
              (\<forall>ws. 49 \<le> i \<and> take 50 (drop (i - 49) close) = map Num ws \<longrightarrow>
                 ?s50 ! i = Num (sum_list ws / 50)) \<and>
              (?s200 ! i \<noteq> NaN \<longleftrightarrow>
                 199 \<le> i \<and> (\<forall>k. i - 199 \<le> k \<and> k \<le> i \<longrightarrow> is_num (close ! k))) \<and>
              (\<forall>ws. 199 \<le> i \<and> take 200 (drop (i - 199) close) = map Num ws \<longrightarrow>
                 ?s200 ! i = Num (sum_list ws / 200))"
    using d50 d200 v50 v200 by blast
  from res cols lens body show ?thesis by blast
qed

theorem moving_averages_full_window_mean_witness:
  "map_of (groups df_w9) ''ORCL'' = Some [(''Close'', replicate 50 (Num 100))] \<and>
   (\<exists>f s50 s200. snd (calculate_metrics NoFill df_w9 ''ORCL'') = Inr (Some f) \<and>
      getitem f ''SMA_50'' = Inr s50 \<and> getitem f ''SMA_200'' = Inr s200 \<and>
      s50 ! 48 = NaN \<and> s50 ! 49 = Num 100 \<and> s200 ! 49 = NaN)"
proof -
  let ?cl = "replicate 50 (Num 100)"
  let ?fs = "[(''Close'', ?cl)]"
  have g: "map_of (groups df_w9) ''ORCL'' = Some ?fs" by (simp add: df_w9_def)
  have c: "map_of ?fs ''Close'' = Some ?cl" by simp
  from moving_averages_full_window_mean [OF g c, of NoFill]
  obtain f s50 s200 where r: "snd (calculate_metrics NoFill df_w9 ''ORCL'') = Inr (Some f)"
    and s: "getitem f ''SMA_50'' = Inr s50" "getitem f ''SMA_200'' = Inr s200"
    and w: "\<forall>i<length ?cl.
              (s50 ! i \<noteq> NaN \<longleftrightarrow>
                 49 \<le> i \<and> (\<forall>k. i - 49 \<le> k \<and> k \<le> i \<longrightarrow> is_num (?cl ! k))) \<and>
              (\<forall>ws. 49 \<le> i \<and> take 50 (drop (i - 49) ?cl) = map Num ws \<longrightarrow>
                 s50 ! i = Num (sum_list ws / 50)) \<and>
              (s200 ! i \<noteq> NaN \<longleftrightarrow>
                 199 \<le> i \<and> (\<forall>k. i - 199 \<le> k \<and> k \<le> i \<longrightarrow> is_num (?cl ! k))) \<and>
              (\<forall>ws. 199 \<le> i \<and> take 200 (drop (i - 199) ?cl) = map Num ws \<longrightarrow>
                 s200 ! i = Num (sum_list ws / 200))"
    by blast
  from w [rule_format, of 48] have a: "s50 ! 48 = NaN" by simp
  from w [rule_format, of 49] have b: "s200 ! 49 = NaN" by simp
  have "take 50 (drop (49 - 49) ?cl) = map Num (replicate 50 100)"
    by simp
  with w [rule_format, of 49] have "s50 ! 49 = Num (sum_list (replicate 50 (100::real)) / 50)"
    by simp
  then have d: "s50 ! 49 = Num 100" by (simp add: sum_list_replicate)
  from g r s a b d show ?thesis by blast
qed

text \<open>
  Claim C10. For a ticker present in the table whose sub-table has a Close column and none
  of the four derived names: the price table is the same after the call as before it;
  the returned table has the date index of the ticker's sub-table, its columns are the
  sub-table's columns unchanged, followed by exactly Daily Return, Volatility, SMA_50
  and SMA_200, and each new column has one cell per row of Close.
\<close>

theorem compute_metrics_adds_four_columns_to_a_copy:
  assumes "map_of (groups df) ticker = Some fs" and "map_of fs ''Close'' = Some close"
    and "''Daily Return'' \<notin> fst ` set fs" and "''Volatility'' \<notin> fst ` set fs"
    and "''SMA_50'' \<notin> fst ` set fs" and "''SMA_200'' \<notin> fst ` set fs"
  shows "fst (calculate_metrics fm df ticker) = df \<and>
         (\<exists>f dr vol s50 s200.
            snd (calculate_metrics fm df ticker) = Inr (Some f) \<and>
            index f = index (read df (View ticker)) \<and>
            cols f = cols (read df (View ticker)) @
                       [(''Daily Return'', dr), (''Volatility'', vol),
                        (''SMA_50'', s50), (''SMA_200'', s200)] \<and>
            getitem f ''Close'' = Inr close \<and>
            length dr = length close \<and> length vol = length close \<and>
            length s50 = length close \<and> length s200 = length close)"
  using assms(1,2)
  by (simp add: calculate_metrics_present [OF assms(1,2)] metrics_cols_fresh [OF assms(3-6)]
      getitem_def length_pct_change length_rolling length_volatility_col)

theorem compute_metrics_adds_four_columns_to_a_copy_witness:
  "map_of (groups df_w10) ''NVDA'' = Some [(''Open'', [Num 3, Num 4]), (''Close'', [Num 4, Num 5])] \<and>
   fst (calculate_metrics NoFill df_w10 ''NVDA'') = df_w10 \<and>
   (\<exists>f dr vol s50 s200.
      snd (calculate_metrics NoFill df_w10 ''NVDA'') = Inr (Some f) \<and>
      index f = [0, 1] \<and>
      cols f = [(''Open'', [Num 3, Num 4]), (''Close'', [Num 4, Num 5]),
                (''Daily Return'', dr), (''Volatility'', vol),
                (''SMA_50'', s50), (''SMA_200'', s200)] \<and>
      length dr = 2 \<and> length vol = 2 \<and> length s50 = 2 \<and> length s200 = 2)"
proof -
  let ?fs = "[(''Open'', [Num 3, Num 4]), (''Close'', [Num 4, Num 5])]"
  have g: "map_of (groups df_w10) ''NVDA'' = Some ?fs" by (simp add: df_w10_def)
  have c: "map_of ?fs ''Close'' = Some [Num 4, Num 5]" by simp
  have n: "''Daily Return'' \<notin> fst ` set ?fs" "''Volatility'' \<notin> fst ` set ?fs"
    "''SMA_50'' \<notin> fst ` set ?fs" "''SMA_200'' \<notin> fst ` set ?fs"
    by simp_all
  have r: "read df_w10 (View ''NVDA'') = \<lparr>index = [0, 1], cols = ?fs\<rparr>"
    by (simp add: df_w10_def)
  have d: "dates df_w10 = [0, 1]" by (simp add: df_w10_def)
  show ?thesis
    using compute_metrics_adds_four_columns_to_a_copy [OF g c n, of NoFill] g
    by (auto simp: d)
qed

section \<open>The cross-ticker correlation engine\<close>



text \<open>
  Claim C6 (as amended). The matrix is square and symmetric; a diagonal entry is 1 when
  the sum of squared deviations of the ticker's returns that are numbers on the retained
  dates is not zero, and NaN when it is zero, that is when these returns are all equal or
  there is none (\<open>ssd_zero_iff_constant\<close>); every entry is a number or NaN, and one
  that is a number lies between -1 and 1. The claim as stated has every diagonal entry
  equal to 1 and fails for a ticker whose price is constant.
\<close>

theorem correlation_symmetric_diagonal_one_or_missing:
  "length (entries (calculate_correlation fm df tickers)) =
     length (labels (calculate_correlation fm df tickers)) \<and>
   (\<forall>i<length (labels (calculate_correlation fm df tickers)).
      length (entries (calculate_correlation fm df tickers) ! i) =
        length (labels (calculate_correlation fm df tickers)) \<and>
      entries (calculate_correlation fm df tickers) ! i ! i =
        (if ssd (common_returns fm df tickers
                   (labels (calculate_correlation fm df tickers) ! i)) = 0
         then NaN else Num 1) \<and>
      (\<forall>j<length (labels (calculate_correlation fm df tickers)).
         entries (calculate_correlation fm df tickers) ! i ! j =
           entries (calculate_correlation fm df tickers) ! j ! i \<and>
         (entries (calculate_correlation fm df tickers) ! i ! j = NaN \<or>
          is_num (entries (calculate_correlation fm df tickers) ! i ! j)) \<and>
         (\<forall>r. entries (calculate_correlation fm df tickers) ! i ! j = Num r \<longrightarrow>
               - 1 \<le> r \<and> r \<le> 1)))"
proof (intro conjI allI impI)
  let ?M = "calculate_correlation fm df tickers"
  show "length (entries ?M) = length (labels ?M)" by (rule correlation_shape(1))
  fix i assume i: "i < length (labels ?M)"
  show "length (entries ?M ! i) = length (labels ?M)" by (rule correlation_shape(2) [OF i])
  show "entries ?M ! i ! i =
          (if ssd (common_returns fm df tickers (labels ?M ! i)) = 0 then NaN else Num 1)"
    by (rule correlation_diagonal [OF i])
  fix j assume j: "j < length (labels ?M)"
  show "entries ?M ! i ! j = entries ?M ! j ! i"
    unfolding correlation_entry [OF i j] correlation_entry [OF j i] by (rule nancorr_commute)
  show "entries ?M ! i ! j = NaN \<or> is_num (entries ?M ! i ! j)"
    unfolding correlation_entry [OF i j] by (rule nancorr_num_or_nan)
  fix r assume "entries ?M ! i ! j = Num r"
  then have "nancorr (retained_returns fm df tickers (labels ?M ! i))
                     (retained_returns fm df tickers (labels ?M ! j)) = Num r"
    unfolding correlation_entry [OF i j] .
  then have b: "- 1 \<le> r \<and> r \<le> 1" by (rule nancorr_bounds)
  from b show "- 1 \<le> r" ..
  from b show "r \<le> 1" ..
qed

theorem correlation_symmetric_diagonal_one_or_missing_witness:
  "common_rows NoFill df_v [''AAPL'', ''MSFT''] = [1, 4] \<and>
   labels (calculate_correlation NoFill df_v [''AAPL'', ''MSFT'']) = [''AAPL'', ''MSFT''] \<and>
   length (entries (calculate_correlation NoFill df_v [''AAPL'', ''MSFT''])) = 2 \<and>
   entries (calculate_correlation NoFill df_v [''AAPL'', ''MSFT'']) ! 0 ! 0 = NaN \<and>
   entries (calculate_correlation NoFill df_v [''AAPL'', ''MSFT'']) ! 1 ! 1 = Num 1 \<and>
   entries (calculate_correlation NoFill df_v [''AAPL'', ''MSFT'']) ! 0 ! 1 =
     entries (calculate_correlation NoFill df_v [''AAPL'', ''MSFT'']) ! 1 ! 0"
proof -
  let ?ts = "[''AAPL'', ''MSFT'']"
  let ?M = "calculate_correlation NoFill df_v ?ts"
  note inst = correlation_symmetric_diagonal_one_or_missing [of NoFill df_v ?ts]
  have l: "labels ?M = ?ts" by (rule df_v_labels)
  have i: "0 < length (labels ?M)" and j: "1 < length (labels ?M)" by (simp_all add: l)
  from inst have n: "length (entries ?M) = 2" by (simp add: l)
  have v0: "ssd (common_returns NoFill df_v ?ts (labels ?M ! 0)) = 0"
    by (simp add: l df_v_common_returns ssd_def)
  have v1: "ssd (common_returns NoFill df_v ?ts (labels ?M ! 1)) \<noteq> 0"
    by (simp add: l df_v_common_returns ssd_def mean_def power2_eq_square)
  from inst i have "entries ?M ! 0 ! 0 =
      (if ssd (common_returns NoFill df_v ?ts (labels ?M ! 0)) = 0 then NaN else Num 1)"
    by blast
  then have d0: "entries ?M ! 0 ! 0 = NaN" using v0 by simp
  from inst j have "entries ?M ! 1 ! 1 =
      (if ssd (common_returns NoFill df_v ?ts (labels ?M ! 1)) = 0 then NaN else Num 1)"
    by blast
  then have d1: "entries ?M ! 1 ! 1 = Num 1" using v1 by simp
  from inst i j have sy: "entries ?M ! 0 ! 1 = entries ?M ! 1 ! 0" by blast
  from df_v_common_rows l n d0 d1 sy show ?thesis by blast
qed

theorem diagonal_counterexample:
  "calculate_correlation NoFill df_c6 [''IBM'', ''AAPL''] =
     \<lparr>labels = [''IBM'', ''AAPL''], entries = [ [NaN, NaN], [NaN, Num 1] ]\<rparr> \<and>
   calculate_correlation Pad df_c6 [''IBM'', ''AAPL''] =
     \<lparr>labels = [''IBM'', ''AAPL''], entries = [ [NaN, NaN], [NaN, Num 1] ]\<rparr>"
proof -
  let ?ibm = "[Num 0, Num 0, Num 0]"
  let ?aapl = "[Num 1, Num (1 / 2), Num 1]"
  have cp: "close_prices fm df_c6 [''IBM'', ''AAPL''] =
              \<lparr>index = [0, 1, 2, 3],
               cols = [(''IBM'', [NaN, Num 0, Num 0, Num 0]),
                       (''AAPL'', [NaN, Num 1, Num (1 / 2), Num 1])]\<rparr>" for fm
    by (cases fm; simp add: eval_close_prices df_c6_def)
  have dn: "dropna (close_prices fm df_c6 [''IBM'', ''AAPL'']) =
              \<lparr>index = [1, 2, 3], cols = [(''IBM'', ?ibm), (''AAPL'', ?aapl)]\<rparr>" for fm
    unfolding cp by (simp add: eval_dropna upt_rec)
  have ii: "nancorr ?ibm ?ibm = NaN"
    by (simp add: nancorr_diagonal ssd_def mean_def)
  have ia: "nancorr ?ibm ?aapl = NaN"
    by (rule nancorr_constant_left) (simp add: ssd_def mean_def)
  have ai: "nancorr ?aapl ?ibm = NaN"
    using ia nancorr_commute [of ?aapl ?ibm] by simp
  have aa: "nancorr ?aapl ?aapl = Num 1"
    by (simp add: nancorr_diagonal ssd_def mean_def power2_eq_square)
  have "calculate_correlation fm df_c6 [''IBM'', ''AAPL''] =
          \<lparr>labels = [''IBM'', ''AAPL''], entries = [ [NaN, NaN], [NaN, Num 1] ]\<rparr>" for fm
    unfolding calculate_correlation_eq dn by (simp add: corr_def ii ia ai aa)
  then show ?thesis by simp
qed

text \<open>
  Claim C7 (as amended). The labels of the matrix are the universe tickers that are in
  the table with a Close column, each once, so the dimension is their number; the others
  are skipped without an error. With none the matrix is 0 by 0. With exactly one it is
  1 by 1, and its entry is 1 when the sum of squared deviations of that ticker's returns
  is not zero and the missing value when it is zero (the returns are all equal, or there
  is none). The claim as stated has the entry always 1 and fails for a ticker with two
  rows.
\<close>

theorem correlation_dimension_counts_included_tickers:
  "distinct (labels (calculate_correlation fm df tickers)) \<and>
   set (labels (calculate_correlation fm df tickers)) =
     {t \<in> set tickers. returns fm df t \<noteq> None} \<and>
   length (labels (calculate_correlation fm df tickers)) =
     card {t \<in> set tickers. returns fm df t \<noteq> None} \<and>
   length (entries (calculate_correlation fm df tickers)) =
     length (labels (calculate_correlation fm df tickers)) \<and>
   (\<forall>i<length (labels (calculate_correlation fm df tickers)).
      length (entries (calculate_correlation fm df tickers) ! i) =
        length (labels (calculate_correlation fm df tickers))) \<and>
   ({t \<in> set tickers. returns fm df t \<noteq> None} = {} \<longrightarrow>
      calculate_correlation fm df tickers = \<lparr>labels = [], entries = []\<rparr>) \<and>
   (\<forall>t. {t' \<in> set tickers. returns fm df t' \<noteq> None} = {t} \<longrightarrow>
      calculate_correlation fm df tickers =
        \<lparr>labels = [t],
         entries = [ [if ssd (common_returns fm df tickers t) = 0 then NaN else Num 1] ]\<rparr>)"
proof -
  let ?M = "calculate_correlation fm df tickers"
  let ?inc = "{t \<in> set tickers. returns fm df t \<noteq> None}"
  have d: "distinct (labels ?M)" and s: "set (labels ?M) = ?inc"
    using correlation_labels_set [of fm df tickers] by blast+
  have c: "length (labels ?M) = card ?inc"
    using d s by (metis distinct_card)
  have sh1: "length (entries ?M) = length (labels ?M)" by (rule correlation_shape(1))
  have sh2: "\<forall>i<length (labels ?M). length (entries ?M ! i) = length (labels ?M)"
    by (simp add: correlation_shape(2))
  have zero: "?M = \<lparr>labels = [], entries = []\<rparr>" if "?inc = {}"
  proof (rule corr_matrix_eqI)
    have "set (labels ?M) = {}" using s that by simp
    then show l: "labels ?M = []" by simp
    show "entries ?M = []" using sh1 l by simp
  qed
  have one: "?M = \<lparr>labels = [t],
                    entries = [ [if ssd (common_returns fm df tickers t) = 0 then NaN else Num 1] ]\<rparr>"
    if "?inc = {t}" for t
  proof (rule corr_matrix_eqI)
    show l: "labels ?M = [t]" using d s that by (intro singleton_list) simp_all
    have i0: "0 < length (labels ?M)" using l by simp
    have e: "entries ?M ! 0 ! 0 =
               (if ssd (common_returns fm df tickers t) = 0 then NaN else Num 1)"
      using correlation_diagonal [OF i0] l by simp
    have l1: "length (entries ?M) = 1" using sh1 l by simp
    have l2: "length (entries ?M ! 0) = 1" using correlation_shape(2) [OF i0] l by simp
    from l1 obtain row where row: "entries ?M = [row]"
      by (cases "entries ?M") auto
    with l2 obtain x where x: "row = [x]" by (cases row) auto
    from e row x show "entries ?M =
        [ [if ssd (common_returns fm df tickers t) = 0 then NaN else Num 1] ]"
      by simp
  qed
  from d s c sh1 sh2 zero one show ?thesis by blast
qed

theorem correlation_dimension_counts_included_tickers_witness:
  "{t \<in> set [''ZZZZ'']. returns NoFill df_w5 t \<noteq> None} = {} \<and>
   calculate_correlation NoFill df_w5 [''ZZZZ''] = \<lparr>labels = [], entries = []\<rparr> \<and>
   {t \<in> set [''AAPL'', ''ZZZZ'']. returns NoFill df_w5 t \<noteq> None} = {''AAPL''} \<and>
   calculate_correlation NoFill df_w5 [''AAPL'', ''ZZZZ''] =
     \<lparr>labels = [''AAPL''], entries = [ [Num 1] ]\<rparr> \<and>
   length (labels (calculate_correlation NoFill df_w5 [''AAPL'', ''ZZZZ'', ''MSFT''])) = 2"
proof -
  have s0: "{t \<in> set [''ZZZZ'']. returns NoFill df_w5 t \<noteq> None} = {}"
    by (auto simp: df_w5_returns)
  have s1: "{t \<in> set [''AAPL'', ''ZZZZ'']. returns NoFill df_w5 t \<noteq> None} = {''AAPL''}"
    by (auto simp: df_w5_returns)
  have s2: "{t \<in> set [''AAPL'', ''ZZZZ'', ''MSFT'']. returns NoFill df_w5 t \<noteq> None} =
              {''AAPL'', ''MSFT''}"
    by (auto simp: df_w5_returns)
  have v: "ssd [1, 1 / 2, 1] \<noteq> 0" by (simp add: ssd_def mean_def power2_eq_square)
  from correlation_dimension_counts_included_tickers [of NoFill df_w5 "[''ZZZZ'']"] s0
  have m0: "calculate_correlation NoFill df_w5 [''ZZZZ''] = \<lparr>labels = [], entries = []\<rparr>"
    by blast
  from correlation_dimension_counts_included_tickers [of NoFill df_w5 "[''AAPL'', ''ZZZZ'']"] s1
  have "calculate_correlation NoFill df_w5 [''AAPL'', ''ZZZZ''] =
          \<lparr>labels = [''AAPL''],
           entries = [ [if ssd (common_returns NoFill df_w5 [''AAPL'', ''ZZZZ''] ''AAPL'') = 0
                       then NaN else Num 1] ]\<rparr>"
    by blast
  then have m1: "calculate_correlation NoFill df_w5 [''AAPL'', ''ZZZZ''] =
                   \<lparr>labels = [''AAPL''], entries = [ [Num 1] ]\<rparr>"
    using v by (simp add: df_w5_common_returns)
  from correlation_dimension_counts_included_tickers
         [of NoFill df_w5 "[''AAPL'', ''ZZZZ'', ''MSFT'']"]
  have "length (labels (calculate_correlation NoFill df_w5 [''AAPL'', ''ZZZZ'', ''MSFT''])) =
          card {t \<in> set [''AAPL'', ''ZZZZ'', ''MSFT'']. returns NoFill df_w5 t \<noteq> None}"
    by blast
  then have m2: "length (labels (calculate_correlation NoFill df_w5
                   [''AAPL'', ''ZZZZ'', ''MSFT''])) = 2"
    unfolding s2 by simp
  from s0 m0 s1 m1 m2 show ?thesis by blast
qed

theorem single_ticker_counterexample:
  "returns NoFill df_c7 ''ZZZZ'' = None \<and>
   calculate_correlation NoFill df_c7 [''NVDA'', ''ZZZZ''] =
     \<lparr>labels = [''NVDA''], entries = [ [NaN] ]\<rparr> \<and>
   calculate_correlation Pad df_c7 [''NVDA'', ''ZZZZ''] =
     \<lparr>labels = [''NVDA''], entries = [ [NaN] ]\<rparr>"
proof -
  have z: "returns NoFill df_c7 ''ZZZZ'' = None" by (simp add: returns_def df_c7_def)
  have cp: "close_prices fm df_c7 [''NVDA'', ''ZZZZ''] =
              \<lparr>index = [0, 1], cols = [(''NVDA'', [NaN, Num 1])]\<rparr>" for fm
    by (cases fm; simp add: eval_close_prices df_c7_def)
  have dn: "dropna (close_prices fm df_c7 [''NVDA'', ''ZZZZ'']) =
              \<lparr>index = [1], cols = [(''NVDA'', [Num 1])]\<rparr>" for fm
    unfolding cp by (simp add: eval_dropna upt_rec)
  have "calculate_correlation fm df_c7 [''NVDA'', ''ZZZZ''] =
          \<lparr>labels = [''NVDA''], entries = [ [NaN] ]\<rparr>" for fm
    unfolding calculate_correlation_eq dn
    by (simp add: corr_def nancorr_diagonal ssd_def mean_def)
  with z show ?thesis by simp
qed

text \<open>
  Claim C2 (as amended). When no date is retained, that is when every date has a missing
  return for some included ticker, the computation returns as usual and signals nothing:
  the frame left by \<open>dropna\<close> has no row, and the result is the square matrix over the
  included tickers in which every entry, the diagonal included, is NaN. The claim as
  stated asks for a distinct insufficient-overlap outcome, which the program does not
  have.
\<close>

theorem empty_overlap_yields_all_missing_matrix:
  assumes "common_rows fm df tickers = []"
  shows "index (dropna (close_prices fm df tickers)) = [] \<and>
         distinct (labels (calculate_correlation fm df tickers)) \<and>
         set (labels (calculate_correlation fm df tickers)) =
           {t \<in> set tickers. returns fm df t \<noteq> None} \<and>
         length (entries (calculate_correlation fm df tickers)) =
           length (labels (calculate_correlation fm df tickers)) \<and>
         (\<forall>i<length (labels (calculate_correlation fm df tickers)).
            length (entries (calculate_correlation fm df tickers) ! i) =
              length (labels (calculate_correlation fm df tickers)) \<and>
            (\<forall>j<length (labels (calculate_correlation fm df tickers)).
               entries (calculate_correlation fm df tickers) ! i ! j = NaN))"
proof -
  let ?M = "calculate_correlation fm df tickers"
  have k: "kept_rows (close_prices fm df tickers) = []"
    using assms by (simp add: kept_rows_close_prices)
  then have idx: "index (dropna (close_prices fm df tickers)) = []"
    by (simp add: dropna_def)
  have rr: "retained_returns fm df tickers t = []" for t
    using assms by (simp add: retained_returns_def split: option.splits)
  have "entries ?M ! i ! j = NaN" if "i < length (labels ?M)" "j < length (labels ?M)" for i j
    unfolding correlation_entry [OF that] by (simp add: rr nancorr_empty)
  then show ?thesis
    using idx correlation_labels_set [of fm df tickers] correlation_shape(1) [of fm df tickers]
      correlation_shape(2) [of _ fm df tickers]
    by blast
qed

theorem empty_overlap_yields_all_missing_matrix_witness:
  "common_rows Pad df_w2 [''AAPL'', ''MSFT''] = [] \<and>
   labels (calculate_correlation Pad df_w2 [''AAPL'', ''MSFT'']) = [''AAPL'', ''MSFT''] \<and>
   index (dropna (close_prices Pad df_w2 [''AAPL'', ''MSFT''])) = [] \<and>
   entries (calculate_correlation Pad df_w2 [''AAPL'', ''MSFT'']) ! 0 ! 0 = NaN \<and>
   entries (calculate_correlation Pad df_w2 [''AAPL'', ''MSFT'']) ! 0 ! 1 = NaN \<and>
   entries (calculate_correlation Pad df_w2 [''AAPL'', ''MSFT'']) ! 1 ! 0 = NaN \<and>
   entries (calculate_correlation Pad df_w2 [''AAPL'', ''MSFT'']) ! 1 ! 1 = NaN"
proof -
  let ?ts = "[''AAPL'', ''MSFT'']"
  let ?M = "calculate_correlation Pad df_w2 ?ts"
  have r: "returns Pad df_w2 ''AAPL'' = Some [NaN]" "returns Pad df_w2 ''MSFT'' = Some [NaN]"
    by (simp_all add: eval_returns df_w2_def)
  have n: "[0..<length (dates df_w2)] = [0]" by (simp add: df_w2_def)
  have rows: "common_rows Pad df_w2 ?ts = []"
    unfolding common_rows_def n by (simp add: r cell_at_def)
  have l: "labels ?M = ?ts"
    unfolding correlation_labels by (simp add: eval_close_prices df_w2_def)
  have i: "0 < length (labels ?M)" and j: "1 < length (labels ?M)" by (simp_all add: l)
  note inst = empty_overlap_yields_all_missing_matrix [OF rows]
  from inst have idx: "index (dropna (close_prices Pad df_w2 ?ts)) = []" by blast
  from inst i have "entries ?M ! 0 ! 0 = NaN" by blast
  moreover from inst i j have "entries ?M ! 0 ! 1 = NaN" by blast
  moreover from inst i j have "entries ?M ! 1 ! 0 = NaN" by blast
  moreover from inst j have "entries ?M ! 1 ! 1 = NaN" by blast
  ultimately show ?thesis using rows l idx by blast
qed

theorem empty_overlap_counterexample:
  "common_rows NoFill df_c2 [''AAPL'', ''INTC''] = [] \<and>
   calculate_correlation NoFill df_c2 [''AAPL'', ''INTC''] =
     \<lparr>labels = [''AAPL'', ''INTC''], entries = [ [NaN, NaN], [NaN, NaN] ]\<rparr> \<and>
   common_rows Pad df_c2 [''AAPL'', ''INTC''] = [] \<and>
   calculate_correlation Pad df_c2 [''AAPL'', ''INTC''] =
     \<lparr>labels = [''AAPL'', ''INTC''], entries = [ [NaN, NaN], [NaN, NaN] ]\<rparr>"
proof -
  have r: "returns fm df_c2 ''AAPL'' = Some [NaN, Num 1, Num (1 / 2), Num 1]"
    "returns fm df_c2 ''INTC'' = Some [NaN, NaN, NaN, NaN]" for fm
    by (cases fm; simp add: eval_returns df_c2_def)+
  have rows: "common_rows fm df_c2 [''AAPL'', ''INTC''] = []" for fm
  proof -
    have n: "[0..<length (dates df_c2)] = [0, 1, 2, 3]" by (simp add: df_c2_def upt_rec)
    show "common_rows fm df_c2 [''AAPL'', ''INTC''] = []" for fm
      unfolding common_rows_def n by (simp add: r cell_at_def)
  qed
  have cp: "close_prices fm df_c2 [''AAPL'', ''INTC''] =
              \<lparr>index = [0, 1, 2, 3],
               cols = [(''AAPL'', [NaN, Num 1, Num (1 / 2), Num 1]),
                       (''INTC'', [NaN, NaN, NaN, NaN])]\<rparr>" for fm
    by (cases fm; simp add: eval_close_prices df_c2_def)
  have dn: "dropna (close_prices fm df_c2 [''AAPL'', ''INTC'']) =
              \<lparr>index = [], cols = [(''AAPL'', []), (''INTC'', [])]\<rparr>" for fm
    unfolding cp by (simp add: eval_dropna)
  have m: "calculate_correlation fm df_c2 [''AAPL'', ''INTC''] =
             \<lparr>labels = [''AAPL'', ''INTC''], entries = [ [NaN, NaN], [NaN, NaN] ]\<rparr>" for fm
    unfolding calculate_correlation_eq dn by (simp add: corr_def nancorr_empty)
  from rows m show ?thesis by simp
qed

end
